theory Spec2Isabelle
  imports Main
begin

section \<open>Values\<close>

text \<open>
  A JavaScript value of type \<^verbatim>\<open>unknown\<close> that came from JSON (a schema of a Thing
  Description, the payload of an event, the arguments of a tool call). Numbers are
  integers here; \<^verbatim>\<open>undefined\<close> is \<open>None\<close> of \<open>json option\<close>. An object is the list
  of its entries in the order of \<^verbatim>\<open>Object.entries\<close>.
\<close>

datatype json =
    JNull
  | JBool bool
  | JNum int
  | JStr string
  | JArr "json list"
  | JObj "(string \<times> json) list"

section \<open>EventBuffer (src/server/EventBuffer.ts)\<close>

text \<open>
  \<^verbatim>\<open>timestamp\<close> is the string \<^verbatim>\<open>new Date().toISOString()\<close>, which the buffer only ever reads
  back with \<^verbatim>\<open>new Date(e.timestamp).getTime()\<close>: the number of milliseconds since the epoch
  that \<^verbatim>\<open>Date.now()\<close> gave at the push. The model keeps that number. The clock is an input
  of every operation that reads it (\<open>now\<close>).
\<close>

record BufferedEvent =
  timestamp :: int
  data :: "json option"
  eventType :: string

record EventBufferOptions =
  maxEventsPerUri :: "int option"
  eventTtlMsOpt :: "int option"

record EventBuffer =
  buffers :: "string \<rightharpoonup> BufferedEvent list"
  maxEvents :: int
  eventTtlMs :: int
  lastUpdated :: "string \<rightharpoonup> int"

definition newEventBuffer :: "EventBufferOptions \<Rightarrow> EventBuffer" where
  "newEventBuffer options =
     \<lparr> buffers = Map.empty,
       maxEvents = (case maxEventsPerUri options of None \<Rightarrow> 100 | Some n \<Rightarrow> n),
       eventTtlMs = (case eventTtlMsOpt options of None \<Rightarrow> 60 * 60 * 1000 | Some t \<Rightarrow> t),
       lastUpdated = Map.empty \<rparr>"

definition noOptions :: EventBufferOptions where
  "noOptions = \<lparr> maxEventsPerUri = None, eventTtlMsOpt = None \<rparr>"

text \<open>\<^verbatim>\<open>push(uri, eventType, data)\<close>, at clock \<open>now\<close>: returns the event and the new buffer.\<close>

definition push :: "int \<Rightarrow> string \<Rightarrow> string \<Rightarrow> json option \<Rightarrow> EventBuffer
    \<Rightarrow> BufferedEvent \<times> EventBuffer" where
  "push now uri etype d eb =
     (let buffer = (case buffers eb uri of None \<Rightarrow> [] | Some b \<Rightarrow> b);
          event = \<lparr> timestamp = now, data = d, eventType = etype \<rparr>;
          pushed = buffer @ [event];
          kept = (if int (length pushed) > maxEvents eb then tl pushed else pushed)
      in (event, eb \<lparr> buffers := (buffers eb)(uri \<mapsto> kept),
                      lastUpdated := (lastUpdated eb)(uri \<mapsto> now) \<rparr>))"

text \<open>\<^verbatim>\<open>pruneExpired(uri)\<close>: keeps the events younger than the TTL; writes the buffer
  back only when something was dropped.\<close>

definition pruneExpired :: "int \<Rightarrow> string \<Rightarrow> EventBuffer \<Rightarrow> EventBuffer" where
  "pruneExpired now uri eb =
     (case buffers eb uri of
        None \<Rightarrow> eb
      | Some buffer \<Rightarrow>
          (let cutoff = now - eventTtlMs eb;
               pruned = filter (\<lambda>e. timestamp e > cutoff) buffer
           in if length pruned \<noteq> length buffer
              then eb \<lparr> buffers := (buffers eb)(uri \<mapsto> pruned) \<rparr>
              else eb))"

definition get :: "int \<Rightarrow> string \<Rightarrow> EventBuffer \<Rightarrow> BufferedEvent list \<times> EventBuffer" where
  "get now uri eb =
     (let eb' = pruneExpired now uri eb
      in ((case buffers eb' uri of None \<Rightarrow> [] | Some b \<Rightarrow> b), eb'))"

text \<open>\<^verbatim>\<open>getSince(uri, since)\<close>: \<open>since\<close> is \<^verbatim>\<open>new Date(since).getTime()\<close>, \<open>None\<close> when
  the string is no date (NaN, which no timestamp exceeds).\<close>

definition getSince :: "int \<Rightarrow> string \<Rightarrow> int option \<Rightarrow> EventBuffer
    \<Rightarrow> BufferedEvent list \<times> EventBuffer" where
  "getSince now uri since eb =
     (let (events, eb') = get now uri eb
      in (filter (\<lambda>e. case since of None \<Rightarrow> False | Some sinceDate \<Rightarrow> timestamp e > sinceDate)
            events, eb'))"

text \<open>\<^verbatim>\<open>Array.prototype.slice(start)\<close> with an integer \<open>start\<close>: a negative start counts
  from the end, and both ends are clamped.\<close>

definition slice :: "int \<Rightarrow> 'a list \<Rightarrow> 'a list" where
  "slice start xs =
     (let len = int (length xs);
          k = (if start < 0 then max (len + start) 0 else min start len)
      in drop (nat k) xs)"

definition getRecent :: "int \<Rightarrow> string \<Rightarrow> int \<Rightarrow> EventBuffer
    \<Rightarrow> BufferedEvent list \<times> EventBuffer" where
  "getRecent now uri cnt eb =
     (let (events, eb') = get now uri eb in (slice (- cnt) events, eb'))"

definition getLastUpdated :: "string \<Rightarrow> EventBuffer \<Rightarrow> int option" where
  "getLastUpdated uri eb = lastUpdated eb uri"

definition count :: "string \<Rightarrow> EventBuffer \<Rightarrow> nat" where
  "count uri eb = (case buffers eb uri of None \<Rightarrow> 0 | Some b \<Rightarrow> length b)"

definition initialize :: "string \<Rightarrow> EventBuffer \<Rightarrow> EventBuffer" where
  "initialize uri eb =
     (if buffers eb uri = None then eb \<lparr> buffers := (buffers eb)(uri \<mapsto> []) \<rparr> else eb)"

text \<open>A caller pushing one event after the other: (clock, uri, eventType, data) each.\<close>

fun pushAll :: "(int \<times> string \<times> string \<times> json option) list \<Rightarrow> EventBuffer \<Rightarrow> EventBuffer" where
  "pushAll [] eb = eb"
| "pushAll ((now, uri, etype, d) # ops) eb = pushAll ops (snd (push now uri etype d eb))"

text \<open>The events that a sequence of pushes appends to the buffer of \<open>uri\<close>, oldest first.\<close>

definition eventsFor :: "string \<Rightarrow> (int \<times> string \<times> string \<times> json option) list
    \<Rightarrow> BufferedEvent list" where
  "eventsFor uri ops =
     map (\<lambda>(now, u, etype, d). \<lparr> timestamp = now, data = d, eventType = etype \<rparr>)
       (filter (\<lambda>(now, u, etype, d). u = uri) ops)"

text \<open>\<^verbatim>\<open>this.buffers.get(uri) ?? []\<close>: what is buffered for \<open>uri\<close>.\<close>

definition bufOf :: "EventBuffer \<Rightarrow> string \<Rightarrow> BufferedEvent list" where
  "bufOf eb uri = (case buffers eb uri of None \<Rightarrow> [] | Some b \<Rightarrow> b)"

text \<open>The last \<open>n\<close> elements of a list (all of it when it has fewer).\<close>

definition newest :: "nat \<Rightarrow> 'a list \<Rightarrow> 'a list" where
  "newest n xs = drop (length xs - n) xs"

text \<open>What \<^verbatim>\<open>pruneExpired\<close> keeps at clock \<open>now\<close>.\<close>

definition fresh :: "int \<Rightarrow> EventBuffer \<Rightarrow> BufferedEvent \<Rightarrow> bool" where
  "fresh now eb e = (now - eventTtlMs eb < timestamp e)"


section \<open>ThingTranslator (src/translator/ThingTranslator.ts)\<close>

subsection \<open>JavaScript values\<close>

text \<open>\<^verbatim>\<open>v.key\<close> on a value from JSON: a member of an object, \<^verbatim>\<open>undefined\<close> otherwise.\<close>

fun field :: "json \<Rightarrow> string \<Rightarrow> json option" where
  "field (JObj kvs) k = map_of kvs k"
| "field _ k = None"

text \<open>Truthiness, as \<^verbatim>\<open>if (v)\<close>, \<^verbatim>\<open>!v\<close>, \<^verbatim>\<open>a && b\<close> and \<^verbatim>\<open>a || b\<close> test it.\<close>

fun truthy :: "json option \<Rightarrow> bool" where
  "truthy None = False"
| "truthy (Some JNull) = False"
| "truthy (Some (JBool b)) = b"
| "truthy (Some (JNum n)) = (n \<noteq> 0)"
| "truthy (Some (JStr s)) = (s \<noteq> [])"
| "truthy (Some (JArr xs)) = True"
| "truthy (Some (JObj kvs)) = True"

text \<open>A member that the Thing Description types declare as \<^verbatim>\<open>string\<close>, under \<^verbatim>\<open>m || dflt\<close>.\<close>

definition stringOr :: "json option \<Rightarrow> string \<Rightarrow> string" where
  "stringOr m dflt = (case m of Some (JStr s) \<Rightarrow> (if s \<noteq> [] then s else dflt) | _ \<Rightarrow> dflt)"

subsection \<open>Strings\<close>

text \<open>Characters are code units below 256; \<^verbatim>\<open>toLowerCase\<close> is modelled on ASCII, where it
  maps \<^verbatim>\<open>A-Z\<close> to \<^verbatim>\<open>a-z\<close> and nothing else.\<close>

definition code :: "char \<Rightarrow> nat" where
  "code c = of_char c"

definition isUpper :: "char \<Rightarrow> bool" where
  "isUpper c = (65 \<le> code c \<and> code c \<le> 90)"

definition isLower :: "char \<Rightarrow> bool" where
  "isLower c = (97 \<le> code c \<and> code c \<le> 122)"

definition isDigit :: "char \<Rightarrow> bool" where
  "isDigit c = (48 \<le> code c \<and> code c \<le> 57)"

definition toLowerCase :: "string \<Rightarrow> string" where
  "toLowerCase str = map (\<lambda>c. if isUpper c then char_of (code c + 32) else c) str"

text \<open>The class \<^verbatim>\<open>[a-z0-9]\<close>.\<close>

definition lowerAlnum :: "char \<Rightarrow> bool" where
  "lowerAlnum c = (isLower c \<or> isDigit c)"

text \<open>\<^verbatim>\<open>str.split(/[:/]/)\<close>: the pieces between the delimiters, never an empty array.\<close>

definition isDelim :: "char \<Rightarrow> bool" where
  "isDelim c = (c = CHR '':'' \<or> c = CHR ''/'')"

fun split :: "string \<Rightarrow> string list" where
  "split [] = [[]]"
| "split (c # cs) =
     (if isDelim c then [] # split cs
      else (case split cs of [] \<Rightarrow> [[c]] | w # ws \<Rightarrow> (c # w) # ws))"

text \<open>\<^verbatim>\<open>.replace(/[^a-z0-9]+/g, '-')\<close>: each maximal run outside the class becomes one hyphen.\<close>

function replaceRuns :: "string \<Rightarrow> string" where
  "replaceRuns [] = []"
| "replaceRuns (c # cs) =
     (if lowerAlnum c then c # replaceRuns cs
      else CHR ''-'' # replaceRuns (dropWhile (\<lambda>x. \<not> lowerAlnum x) cs))"
  by pat_completeness auto
termination
  by (relation "measure length") (auto simp: less_Suc_eq_le length_dropWhile_le)

text \<open>\<^verbatim>\<open>.replace(/^-|-$/g, '')\<close>: a hyphen at the very start is removed, and a hyphen at
  the very end of what follows it.\<close>

definition trimHyphen :: "string \<Rightarrow> string" where
  "trimHyphen s =
     (let s1 = (case s of [] \<Rightarrow> [] | c # cs \<Rightarrow> if c = CHR ''-'' then cs else s)
      in if s1 \<noteq> [] \<and> last s1 = CHR ''-'' then butlast s1 else s1)"

definition sanitizeId :: "string \<Rightarrow> string" where
  "sanitizeId str = trimHyphen (replaceRuns (toLowerCase str))"

subsection \<open>Thing descriptions and their translation\<close>

text \<open>The members of a Thing Description that the translator reads. \<^verbatim>\<open>properties\<close>,
  \<^verbatim>\<open>actions\<close> and \<^verbatim>\<open>events\<close> are objects: the lists of their \<^verbatim>\<open>Object.entries\<close>.\<close>

record ThingDescription =
  td_id :: "string option"
  td_title :: string
  td_description :: "string option"
  td_properties :: "(string \<times> json) list option"
  td_actions :: "(string \<times> json) list option"
  td_events :: "(string \<times> json) list option"

record TranslatedProperty =
  p_uri :: string
  p_name :: string
  p_description :: string
  p_mimeType :: string
  p_writable :: bool
  p_wotName :: string
  p_schema :: "json option"

record InputSchema =
  s_type :: string
  s_properties :: json
  s_required :: "json option"

record TranslatedAction =
  a_name :: string
  a_description :: string
  a_inputSchema :: InputSchema
  a_wotName :: string
  a_thingId :: string
  a_inputWrapped :: bool

record TranslatedEvent =
  e_uri :: string
  e_name :: string
  e_description :: string
  e_mimeType :: string
  e_wotName :: string
  e_schema :: "json option"

record TranslatedThing =
  t_id :: string
  t_title :: string
  t_description :: "string option"
  t_properties :: "TranslatedProperty list"
  t_actions :: "TranslatedAction list"
  t_events :: "TranslatedEvent list"

definition extractThingId :: "ThingDescription \<Rightarrow> string" where
  "extractThingId td =
     (case td_id td of
        Some i \<Rightarrow> (if i \<noteq> [] then sanitizeId (last (split i)) else sanitizeId (td_title td))
      | None \<Rightarrow> sanitizeId (td_title td))"

definition translateProperties :: "string \<Rightarrow> ThingDescription \<Rightarrow> TranslatedProperty list" where
  "translateProperties thingId td =
     (case td_properties td of
        None \<Rightarrow> []
      | Some entries \<Rightarrow>
          map (\<lambda>(name, prop).
                \<lparr> p_uri = ''wot://'' @ thingId @ ''/properties/'' @ name,
                  p_name = stringOr (field prop ''title'') name,
                  p_description = stringOr (field prop ''description'')
                      (''Property '' @ name @ '' of '' @ td_title td),
                  p_mimeType = ''application/json'',
                  p_writable = (\<not> truthy (field prop ''readOnly'')),
                  p_wotName = name,
                  p_schema = Some prop \<rparr>) entries)"

definition buildActionInputSchema :: "json option \<Rightarrow> InputSchema \<times> bool" where
  "buildActionInputSchema input =
     (if \<not> truthy input
      then (\<lparr> s_type = ''object'', s_properties = JObj [], s_required = None \<rparr>, False)
      else (let schema = the input in
        if field schema ''type'' = Some (JStr ''object'') \<and> truthy (field schema ''properties'')
        then (\<lparr> s_type = ''object'',
                 s_properties = the (field schema ''properties''),
                 s_required = field schema ''required'' \<rparr>, False)
        else (\<lparr> s_type = ''object'',
                 s_properties = JObj [(''value'', schema)],
                 s_required = Some (JArr [JStr ''value'']) \<rparr>, True)))"

definition translateActions :: "string \<Rightarrow> ThingDescription \<Rightarrow> TranslatedAction list" where
  "translateActions thingId td =
     (case td_actions td of
        None \<Rightarrow> []
      | Some entries \<Rightarrow>
          map (\<lambda>(name, action).
                (let (inputSchema, inputWrapped) = buildActionInputSchema (field action ''input'')
                 in \<lparr> a_name = thingId @ ''_'' @ name,
                      a_description = stringOr (field action ''description'')
                          (''Execute '' @ name @ '' on '' @ td_title td),
                      a_inputSchema = inputSchema,
                      a_wotName = name,
                      a_thingId = thingId,
                      a_inputWrapped = inputWrapped \<rparr>)) entries)"

definition translateEvents :: "string \<Rightarrow> ThingDescription \<Rightarrow> TranslatedEvent list" where
  "translateEvents thingId td =
     (case td_events td of
        None \<Rightarrow> []
      | Some entries \<Rightarrow>
          map (\<lambda>(name, event).
                \<lparr> e_uri = ''wot://'' @ thingId @ ''/events/'' @ name,
                  e_name = stringOr (field event ''title'') name,
                  e_description = stringOr (field event ''description'')
                      (''Event stream for '' @ name @ '' from '' @ td_title td),
                  e_mimeType = ''application/json'',
                  e_wotName = name,
                  e_schema = field event ''data'' \<rparr>) entries)"

definition translate :: "ThingDescription \<Rightarrow> TranslatedThing" where
  "translate td =
     (let thingId = extractThingId td
      in \<lparr> t_id = thingId,
           t_title = td_title td,
           t_description = td_description td,
           t_properties = translateProperties thingId td,
           t_actions = translateActions thingId td,
           t_events = translateEvents thingId td \<rparr>)"

subsection \<open>The words of the specification, for comparison\<close>

text \<open>The last colon- or slash-delimited segment of a string.\<close>

definition lastSegment :: "string \<Rightarrow> string" where
  "lastSegment s = rev (takeWhile (\<lambda>c. \<not> isDelim c) (rev s))"

text \<open>Trimming leading and trailing hyphens, however many.\<close>

definition trimAllHyphens :: "string \<Rightarrow> string" where
  "trimAllHyphens s =
     rev (dropWhile (\<lambda>c. c = CHR ''-'') (rev (dropWhile (\<lambda>c. c = CHR ''-'') s)))"

text \<open>An object schema with a \<^verbatim>\<open>properties\<close> member.\<close>

definition objectWithProperties :: "json \<Rightarrow> bool" where
  "objectWithProperties s =
     (field s ''type'' = Some (JStr ''object'') \<and> field s ''properties'' \<noteq> None)"

text \<open>A declared input as the type \<^verbatim>\<open>DataSchema\<close> has it: an object whose \<^verbatim>\<open>properties\<close>
  member, when there is one, is an object.\<close>

definition dataSchema :: "json \<Rightarrow> bool" where
  "dataSchema s =
     ((case s of JObj kvs \<Rightarrow> True | _ \<Rightarrow> False) \<and>
      (case field s ''properties'' of
         None \<Rightarrow> True | Some (JObj ps) \<Rightarrow> True | Some _ \<Rightarrow> False))"

text \<open>The declared input of an action is an object schema with a \<^verbatim>\<open>properties\<close> member
  (an action that declares no input has no such schema).\<close>

definition isObjectWithProperties :: "json option \<Rightarrow> bool" where
  "isObjectWithProperties input =
     (case input of None \<Rightarrow> False | Some s \<Rightarrow> objectWithProperties s)"

text \<open>No two hyphens next to each other.\<close>

fun noDouble :: "string \<Rightarrow> bool" where
  "noDouble (a # b # cs) = (\<not> (a = CHR ''-'' \<and> b = CHR ''-'') \<and> noDouble (b # cs))"
| "noDouble _ = True"

text \<open>The identifier or, without one, the title: what \<^verbatim>\<open>extractThingId\<close> sanitizes.\<close>

definition idSource :: "ThingDescription \<Rightarrow> string" where
  "idSource td =
     (case td_id td of
        Some i \<Rightarrow> (if i \<noteq> [] then lastSegment i else td_title td)
      | None \<Rightarrow> td_title td)"

section \<open>McpServer (src/server/McpServer.ts)\<close>

subsection \<open>Configuration, results and the device layer\<close>

datatype ToolStrategy = Explicit | Generic

record McpServerConfig =
  c_name :: string
  c_version :: string
  eventBufferSize :: "int option"
  toolStrategy :: "ToolStrategy option"

text \<open>A thrown \<^verbatim>\<open>Error\<close> with its message.\<close>

datatype error = Error string

text \<open>The text of a result: a string built by the server, or \<^verbatim>\<open>JSON.stringify(v, null, 2)\<close>
  of a value, which stays symbolic.\<close>

datatype resultText = Lit string | Stringify json

record CallToolResult =
  isError :: bool
  content :: resultText

text \<open>The three callbacks of the device layer. Each may throw; a call that returns may
  return \<^verbatim>\<open>undefined\<close>. The server state logs every call made, in order.\<close>

type_synonym PropertyReader = "string \<Rightarrow> string \<Rightarrow> error + json option"
type_synonym PropertyWriter = "string \<Rightarrow> string \<Rightarrow> json option \<Rightarrow> error + unit"
type_synonym ActionInvoker = "string \<Rightarrow> string \<Rightarrow> json option \<Rightarrow> error + json option"

datatype DeviceCall =
    ReadCall string string
  | WriteCall string string "json option"
  | InvokeCall string string "json option"

subsection \<open>Thrown errors\<close>

text \<open>
  A method that may throw returns the error it threw, if any, together with the state as
  the throw left it: what ran before the throw has had its effect. \<open>andThen\<close> is the
  sequence of two statements and \<open>forEach\<close> a \<^verbatim>\<open>for ... of\<close> loop: a throw ends both.
\<close>

definition andThen :: "error option \<times> 's \<Rightarrow> ('s \<Rightarrow> error option \<times> 's) \<Rightarrow> error option \<times> 's" where
  "andThen r f = (case r of (None, s) \<Rightarrow> f s | (Some e, s) \<Rightarrow> (Some e, s))"

fun forEach :: "('a \<Rightarrow> 's \<Rightarrow> error option \<times> 's) \<Rightarrow> 'a list \<Rightarrow> 's \<Rightarrow> error option \<times> 's" where
  "forEach body [] st = (None, st)"
| "forEach body (x # xs) st = andThen (body x st) (forEach body xs)"

subsection \<open>Schema conversion\<close>

text \<open>The validators that \<^verbatim>\<open>jsonSchemaToZod\<close> builds, as terms.\<close>

datatype zod =
    ZString
  | ZEnum json
  | ZNumber "int option" "int option"
  | ZInt "int option" "int option"
  | ZBoolean
  | ZArray zod
  | ZObject "(string \<times> zod) list"
  | ZUnknown
  | ZOptional zod
  | ZDescribed zod json

text \<open>The decimal numeral of an array index, as \<^verbatim>\<open>Object.entries\<close> gives it.\<close>

fun decimal :: "nat \<Rightarrow> string" where
  "decimal n =
     (if n < 10 then [char_of (48 + n)]
      else decimal (n div 10) @ [char_of (48 + n mod 10)])"

declare decimal.simps [simp del]

text \<open>\<^verbatim>\<open>Object.entries(v)\<close> for a value from JSON that is not \<^verbatim>\<open>null\<close>: the members of an
  object, the elements of an array and the characters of a string under their indices,
  nothing for a number or a boolean.\<close>

definition entries :: "json \<Rightarrow> (string \<times> json) list" where
  "entries v =
     (case v of
        JObj kvs \<Rightarrow> kvs
      | JArr xs \<Rightarrow> zip (map decimal [0..<length xs]) xs
      | JStr s \<Rightarrow> zip (map decimal [0..<length s]) (map (\<lambda>c. JStr [c]) s)
      | _ \<Rightarrow> [])"

text \<open>\<^verbatim>\<open>s.includes(k)\<close> on strings.\<close>

fun isInfix :: "string \<Rightarrow> string \<Rightarrow> bool" where
  "isInfix k [] = (k = [])"
| "isInfix k (c # cs) = (take (length k) (c # cs) = k \<or> isInfix k cs)"

text \<open>\<^verbatim>\<open>required.includes(key)\<close> for a truthy \<^verbatim>\<open>required\<close>: an array and a string have the
  method; on a number, \<^verbatim>\<open>true\<close> or an object the call throws a \<^verbatim>\<open>TypeError\<close>.\<close>

definition requiredIncludes :: "json \<Rightarrow> string \<Rightarrow> error + bool" where
  "requiredIncludes required key =
     (case required of
        JArr xs \<Rightarrow> Inr (JStr key \<in> set xs)
      | JStr s \<Rightarrow> Inr (isInfix key s)
      | _ \<Rightarrow> Inl (Error ''required.includes is not a function''))"

text \<open>\<^verbatim>\<open>typeof v === 'number'\<close>.\<close>

definition numberOf :: "json option \<Rightarrow> int option" where
  "numberOf v = (case v of Some (JNum n) \<Rightarrow> Some n | _ \<Rightarrow> None)"

text \<open>The loop over the entries of \<^verbatim>\<open>properties\<close>: for each entry in turn the conversion
  of its schema, then the test of \<^verbatim>\<open>required\<close>; the first throw ends the loop.\<close>

fun shapeOf :: "(string \<times> (error + zod) \<times> (error + bool)) list \<Rightarrow> error + (string \<times> zod) list" where
  "shapeOf [] = Inr []"
| "shapeOf ((key, propZod, isRequired) # es) =
     (case propZod of
        Inl e \<Rightarrow> Inl e
      | Inr z \<Rightarrow>
          (case isRequired of
             Inl e \<Rightarrow> Inl e
           | Inr r \<Rightarrow>
               (case shapeOf es of
                  Inl e \<Rightarrow> Inl e
                | Inr shape \<Rightarrow> Inr ((key, if r then z else ZOptional z) # shape))))"

text \<open>\<^verbatim>\<open>jsonSchemaToZod\<close>. Reading \<^verbatim>\<open>schema.type\<close> of \<^verbatim>\<open>null\<close> throws; every other value
  from JSON has the members read here or gives \<^verbatim>\<open>undefined\<close> for them.\<close>

function jsonSchemaToZod :: "json \<Rightarrow> error + zod" where
  "jsonSchemaToZod schema =
     (if schema = JNull then Inl (Error ''Cannot read properties of null (reading type)'')
      else
        (let type = field schema ''type'';
             description = field schema ''description'';
             zodSchema =
               (if type = Some (JStr ''string'') then
                  Inr (if truthy (field schema ''enum'')
                       then ZEnum (the (field schema ''enum'')) else ZString)
                else if type = Some (JStr ''number'') then
                  Inr (ZNumber (numberOf (field schema ''minimum''))
                         (numberOf (field schema ''maximum'')))
                else if type = Some (JStr ''integer'') then
                  Inr (ZInt (numberOf (field schema ''minimum''))
                         (numberOf (field schema ''maximum'')))
                else if type = Some (JStr ''boolean'') then Inr ZBoolean
                else if type = Some (JStr ''array'') then
                  (if truthy (field schema ''items'')
                   then (case jsonSchemaToZod (the (field schema ''items'')) of
                           Inl e \<Rightarrow> Inl e
                         | Inr z \<Rightarrow> Inr (ZArray z))
                   else Inr (ZArray ZUnknown))
                else if type = Some (JStr ''object'') then
                  (if truthy (field schema ''properties'')
                   then (case shapeOf
                                (map (\<lambda>entry.
                                        (fst entry, jsonSchemaToZod (snd entry),
                                         if truthy (field schema ''required'')
                                         then requiredIncludes (the (field schema ''required''))
                                                (fst entry)
                                         else Inr False))
                                   (entries (the (field schema ''properties'')))) of
                           Inl e \<Rightarrow> Inl e
                         | Inr shape \<Rightarrow> Inr (ZObject shape))
                   else Inr (ZObject []))
                else Inr ZUnknown)
         in case zodSchema of
              Inl e \<Rightarrow> Inl e
            | Inr z \<Rightarrow> Inr (if truthy description then ZDescribed z (the description) else z)))"
  by pat_completeness auto
termination
proof -
  have member: "size v < Suc (size_list (size_prod (\<lambda>x. 0) size) kvs)"
    if "(k, v) \<in> set kvs" for k :: string and v :: json and kvs
    using that by (induction kvs) auto
  have element: "size v < Suc (size_list size xs)" if "v \<in> set xs" for v :: json and xs
    using that by (induction xs) auto
  have sub: "size v < size s" if "field s k = Some v" for s k v
    using that by (cases s) (auto dest!: map_of_SomeD member)
  have some: "\<exists>v. m = Some v" if "truthy m" for m
    using that by (cases m) auto
  have ent: "size v \<le> size p" if "(k, v) \<in> set (entries p)" for k v p
  proof (cases p)
    case (JStr s)
    then show ?thesis using that by (auto simp: entries_def dest!: set_zip_rightD)
  next
    case (JArr xs)
    then show ?thesis using that by (auto simp: entries_def dest!: set_zip_rightD element)
  next
    case (JObj kvs)
    then show ?thesis using that by (auto simp: entries_def dest!: member)
  qed (use that in \<open>auto simp: entries_def\<close>)
  show ?thesis
  proof (relation "measure size")
    show "wf (measure size)" by simp
  next
    fix schema :: json
    assume "truthy (field schema ''items'')"
    then obtain v where "field schema ''items'' = Some v" using some by blast
    then show "(the (field schema ''items''), schema) \<in> measure size"
      using sub by auto
  next
    fix schema :: json and entry
    assume t: "truthy (field schema ''properties'')"
      and e: "entry \<in> set (entries (the (field schema ''properties'')))"
    from t obtain p where p: "field schema ''properties'' = Some p" using some by blast
    with e have "(fst entry, snd entry) \<in> set (entries p)" by simp
    then have "size (snd entry) \<le> size p" by (rule ent)
    then show "(snd entry, schema) \<in> measure size" using sub [OF p] by simp
  qed
qed

declare jsonSchemaToZod.simps [simp del]

text \<open>\<^verbatim>\<open>jsonSchemaToZodObject\<close>, on the input schema of an action.\<close>

definition jsonSchemaToZodObject :: "InputSchema \<Rightarrow> error + (string \<times> zod) list" where
  "jsonSchemaToZodObject schema =
     (let properties = (if truthy (Some (s_properties schema)) then s_properties schema
                        else JObj []);
          required = (if truthy (s_required schema) then the (s_required schema) else JArr [])
      in shapeOf (map (\<lambda>entry. (fst entry, jsonSchemaToZod (snd entry),
                                  requiredIncludes required (fst entry)))
                    (entries properties)))"

subsection \<open>Protocol server instances\<close>

text \<open>
  An instance of the SDK's server is an object outside this repository. The model keeps
  what this code does with it and how it answers: the tools and resources it has
  registered, in the order of the calls, each with the closure it was given (named by
  what the closure captures); whether its handlers for tools and for resources are
  installed; whether \<^verbatim>\<open>server.server.transport\<close> is set; and the notifications handed to
  \<^verbatim>\<open>server.server.notification\<close>, by this code or by the instance itself.

  \<^verbatim>\<open>registerTool\<close> and \<^verbatim>\<open>registerResource\<close> can throw, and no caller here catches it. A
  name (of a tool) or a URI (of a resource) that the instance already has is refused. The
  first tool (resource) registered installs the handlers for tools (resources), which
  the instance refuses once it is connected to a transport. A registration that throws
  leaves the instance serving what it served before. A registration that succeeds on a
  connected instance makes the instance send its own list-changed notification.

  A failure of \<^verbatim>\<open>server.server.notification\<close> is caught and ignored by every caller here,
  so it changes nothing of what follows.
\<close>

datatype ToolHandler =
    GetterTool TranslatedProperty
  | SetterTool TranslatedProperty
  | ActionTool TranslatedAction
  | ListDevices
  | ReadProperty
  | WriteProperty
  | InvokeAction

datatype Notification = ResourceUpdated string | ResourceListChanged | ToolListChanged

record SdkMcpServer =
  tools :: "(string \<times> ToolHandler) list"
  resources :: "(string \<times> string \<times> TranslatedEvent) list"
  toolHandlers :: bool
  resourceHandlers :: bool
  transport :: bool
  notifications :: "Notification list"

definition emptyInstance :: SdkMcpServer where
  "emptyInstance =
     \<lparr> tools = [], resources = [], toolHandlers = False, resourceHandlers = False,
       transport = False, notifications = [] \<rparr>"

definition registerTool :: "string \<Rightarrow> ToolHandler \<Rightarrow> SdkMcpServer
    \<Rightarrow> error option \<times> SdkMcpServer" where
  "registerTool name h srv =
     (if name \<in> set (map fst (tools srv))
      then (Some (Error (''Tool '' @ name @ '' is already registered'')), srv)
      else if \<not> toolHandlers srv \<and> transport srv
      then (Some (Error ''Cannot register capabilities after connecting to transport''), srv)
      else (None,
            srv \<lparr> tools := tools srv @ [(name, h)],
                  toolHandlers := True,
                  notifications :=
                    notifications srv @ (if transport srv then [ToolListChanged] else []) \<rparr>))"

definition registerResource :: "string \<Rightarrow> string \<Rightarrow> TranslatedEvent \<Rightarrow> SdkMcpServer
    \<Rightarrow> error option \<times> SdkMcpServer" where
  "registerResource name uri ev srv =
     (if uri \<in> set (map (\<lambda>r. fst (snd r)) (resources srv))
      then (Some (Error (''Resource '' @ uri @ '' is already registered'')), srv)
      else if \<not> resourceHandlers srv \<and> transport srv
      then (Some (Error ''Cannot register capabilities after connecting to transport''), srv)
      else (None,
            srv \<lparr> resources := resources srv @ [(name, uri, ev)],
                  resourceHandlers := True,
                  notifications :=
                    notifications srv @ (if transport srv then [ResourceListChanged] else []) \<rparr>))"

definition notification :: "Notification \<Rightarrow> SdkMcpServer \<Rightarrow> SdkMcpServer" where
  "notification n srv = srv \<lparr> notifications := notifications srv @ [n] \<rparr>"

definition connect :: "SdkMcpServer \<Rightarrow> SdkMcpServer" where
  "connect srv = srv \<lparr> transport := True \<rparr>"

subsection \<open>The server state\<close>

text \<open>
  Instances are objects, and \<^verbatim>\<open>serverSubscriptions\<close> is keyed by their identity: the
  state has a store of instances by address. A JavaScript \<^verbatim>\<open>Map\<close> that the code iterates
  is the list of its entries in insertion order.
\<close>

record McpServer =
  config :: McpServerConfig
  eventBuffer :: EventBuffer
  stdioServer :: "nat option"
  sessions :: "(string \<times> nat) list"
  serverSubscriptions :: "nat \<rightharpoonup> string set"
  httpServer :: bool
  things :: "(string \<times> TranslatedThing) list"
  properties :: "(string \<times> TranslatedProperty) list"
  actions :: "(string \<times> TranslatedAction) list"
  events :: "(string \<times> TranslatedEvent) list"
  propertyReader :: "PropertyReader option"
  propertyWriter :: "PropertyWriter option"
  actionInvoker :: "ActionInvoker option"
  store :: "nat \<rightharpoonup> SdkMcpServer"
  nextAddress :: nat
  deviceLog :: "DeviceCall list"

text \<open>\<^verbatim>\<open>Map.prototype.set\<close>: an existing key keeps its place.\<close>

fun mapSet :: "'k \<Rightarrow> 'v \<Rightarrow> ('k \<times> 'v) list \<Rightarrow> ('k \<times> 'v) list" where
  "mapSet k v [] = [(k, v)]"
| "mapSet k v ((k', v') # kvs) = (if k' = k then (k, v) # kvs else (k', v') # mapSet k v kvs)"

definition mapDelete :: "'k \<Rightarrow> ('k \<times> 'v) list \<Rightarrow> ('k \<times> 'v) list" where
  "mapDelete k kvs = filter (\<lambda>(k', v). k' \<noteq> k) kvs"

definition newMcpServer :: "McpServerConfig \<Rightarrow> McpServer" where
  "newMcpServer cfg =
     \<lparr> config = cfg,
       eventBuffer = newEventBuffer
         \<lparr> maxEventsPerUri = Some (case eventBufferSize cfg of None \<Rightarrow> 100 | Some n \<Rightarrow> n),
           eventTtlMsOpt = None \<rparr>,
       stdioServer = None, sessions = [], serverSubscriptions = Map.empty,
       httpServer = False,
       things = [], properties = [], actions = [], events = [],
       propertyReader = None, propertyWriter = None, actionInvoker = None,
       store = Map.empty, nextAddress = 0, deviceLog = [] \<rparr>"

definition setCallbacks :: "PropertyReader \<Rightarrow> PropertyWriter \<Rightarrow> ActionInvoker \<Rightarrow> McpServer
    \<Rightarrow> McpServer" where
  "setCallbacks r w i st =
     st \<lparr> propertyReader := Some r, propertyWriter := Some w, actionInvoker := Some i \<rparr>"

text \<open>A method call on the instance at an address: one that cannot throw, and one that
  can.\<close>

definition onServer :: "nat \<Rightarrow> (SdkMcpServer \<Rightarrow> SdkMcpServer) \<Rightarrow> McpServer \<Rightarrow> McpServer" where
  "onServer ref f st =
     (case store st ref of
        None \<Rightarrow> st
      | Some srv \<Rightarrow> st \<lparr> store := (store st)(ref \<mapsto> f srv) \<rparr>)"

definition callOnServer :: "nat \<Rightarrow> (SdkMcpServer \<Rightarrow> error option \<times> SdkMcpServer) \<Rightarrow> McpServer
    \<Rightarrow> error option \<times> McpServer" where
  "callOnServer ref f st =
     (case store st ref of
        None \<Rightarrow> (None, st)
      | Some srv \<Rightarrow>
          (case f srv of (thrown, srv') \<Rightarrow> (thrown, st \<lparr> store := (store st)(ref \<mapsto> srv') \<rparr>)))"

definition createMcpServerInstance :: "McpServer \<Rightarrow> nat \<times> McpServer" where
  "createMcpServerInstance st =
     (nextAddress st,
      st \<lparr> store := (store st)(nextAddress st \<mapsto> emptyInstance),
           nextAddress := Suc (nextAddress st) \<rparr>)"

definition strategyOf :: "McpServer \<Rightarrow> ToolStrategy" where
  "strategyOf st = (case toolStrategy (config st) of None \<Rightarrow> Explicit | Some s \<Rightarrow> s)"

subsection \<open>Tool names\<close>

definition startsWith :: "string \<Rightarrow> string \<Rightarrow> bool" where
  "startsWith p s = (take (length p) s = p)"

text \<open>What \<^verbatim>\<open>.\<close> does not match: the line terminators (below 256: LF and CR).\<close>

definition lineTerminator :: "char \<Rightarrow> bool" where
  "lineTerminator c = (code c = 10 \<or> code c = 13)"

text \<open>\<^verbatim>\<open>wot:\/\/([^/]+)\/properties\/(.+)\<close> matched at the start of \<open>s\<close>: the two groups and
  what is left of \<open>s\<close> after the match. Both groups are greedy and neither can give back
  a character: the first is followed by a slash, the second ends the pattern.\<close>

definition matchPropertyUriAt :: "string \<Rightarrow> (string \<times> string \<times> string) option" where
  "matchPropertyUriAt s =
     (if startsWith ''wot://'' s then
        (let r = drop 6 s;
             thingId = takeWhile (\<lambda>c. c \<noteq> CHR ''/'') r;
             r2 = drop (length thingId) r
         in if thingId \<noteq> [] \<and> startsWith ''/properties/'' r2 then
              (let r3 = drop 12 r2;
                   propName = takeWhile (\<lambda>c. \<not> lineTerminator c) r3
               in if propName \<noteq> [] then Some (thingId, propName, drop (length propName) r3)
                  else None)
            else None)
      else None)"

text \<open>\<^verbatim>\<open>uri.match(/^wot:\/\/([^/]+)\/properties\/(.+)$/)\<close>.\<close>

definition matchPropertyUriAnchored :: "string \<Rightarrow> (string \<times> string) option" where
  "matchPropertyUriAnchored s =
     (case matchPropertyUriAt s of
        Some (thingId, propName, rest) \<Rightarrow> (if rest = [] then Some (thingId, propName) else None)
      | None \<Rightarrow> None)"

text \<open>\<^verbatim>\<open>uri.match(/wot:\/\/([^/]+)\/properties\/(.+)/)\<close>: the leftmost match.\<close>

fun matchPropertyUri :: "string \<Rightarrow> (string \<times> string) option" where
  "matchPropertyUri [] =
     (case matchPropertyUriAt [] of Some (t, n, r) \<Rightarrow> Some (t, n) | None \<Rightarrow> None)"
| "matchPropertyUri (c # cs) =
     (case matchPropertyUriAt (c # cs) of
        Some (t, n, r) \<Rightarrow> Some (t, n)
      | None \<Rightarrow> matchPropertyUri cs)"

text \<open>\<^verbatim>\<open>.replace(/[^a-z0-9]/gi, '_')\<close>.\<close>

definition toolNamePart :: "string \<Rightarrow> string" where
  "toolNamePart s = map (\<lambda>c. if isLower c \<or> isUpper c \<or> isDigit c then c else CHR ''_'') s"

definition propertyToolName :: "string \<Rightarrow> TranslatedProperty \<Rightarrow> string" where
  "propertyToolName verb prop =
     (case matchPropertyUriAnchored (p_uri prop) of
        Some (thingId, propName) \<Rightarrow>
          verb @ ''_'' @ toolNamePart propName @ ''_'' @ toolNamePart thingId
      | None \<Rightarrow>
          verb @ ''_'' @ toolNamePart
            (if startsWith ''wot://'' (p_uri prop) then drop 6 (p_uri prop) else p_uri prop))"

definition actionToolName :: "TranslatedAction \<Rightarrow> string" where
  "actionToolName action = toolNamePart (a_wotName action) @ ''_'' @ toolNamePart (a_thingId action)"

subsection \<open>Registration on an instance\<close>

definition registerPropertyGetterToolOnServer :: "nat \<Rightarrow> TranslatedProperty \<Rightarrow> McpServer
    \<Rightarrow> error option \<times> McpServer" where
  "registerPropertyGetterToolOnServer ref prop st =
     callOnServer ref (registerTool (propertyToolName ''get'' prop) (GetterTool prop)) st"

text \<open>The value schema is converted before \<^verbatim>\<open>registerTool\<close> is called:
  \<^verbatim>\<open>jsonSchemaToZod(prop.schema || { type: 'string' })\<close>.\<close>

definition registerPropertySetterToolOnServer :: "nat \<Rightarrow> TranslatedProperty \<Rightarrow> McpServer
    \<Rightarrow> error option \<times> McpServer" where
  "registerPropertySetterToolOnServer ref prop st =
     (case jsonSchemaToZod (if truthy (p_schema prop) then the (p_schema prop)
                            else JObj [(''type'', JStr ''string'')]) of
        Inl e \<Rightarrow> (Some e, st)
      | Inr valueSchema \<Rightarrow>
          callOnServer ref (registerTool (propertyToolName ''set'' prop) (SetterTool prop)) st)"

text \<open>The input schema is converted first: \<^verbatim>\<open>jsonSchemaToZodObject(action.inputSchema)\<close>.\<close>

definition registerActionToolOnServer :: "nat \<Rightarrow> TranslatedAction \<Rightarrow> McpServer
    \<Rightarrow> error option \<times> McpServer" where
  "registerActionToolOnServer ref action st =
     (case jsonSchemaToZodObject (a_inputSchema action) of
        Inl e \<Rightarrow> (Some e, st)
      | Inr zodSchema \<Rightarrow>
          callOnServer ref (registerTool (actionToolName action) (ActionTool action)) st)"

definition registerEventResourceOnServer :: "nat \<Rightarrow> TranslatedEvent \<Rightarrow> McpServer
    \<Rightarrow> error option \<times> McpServer" where
  "registerEventResourceOnServer ref event st =
     callOnServer ref (registerResource (e_name event) (e_uri event) event) st"

definition registerGenericTools :: "nat \<Rightarrow> McpServer \<Rightarrow> error option \<times> McpServer" where
  "registerGenericTools ref st =
     andThen (andThen (andThen
       (callOnServer ref (registerTool ''list_devices'' ListDevices) st)
       (callOnServer ref (registerTool ''read_property'' ReadProperty)))
       (callOnServer ref (registerTool ''write_property'' WriteProperty)))
       (callOnServer ref (registerTool ''invoke_action'' InvokeAction))"

definition setupSubscriptionHandlers :: "nat \<Rightarrow> McpServer \<Rightarrow> McpServer" where
  "setupSubscriptionHandlers ref st =
     (if serverSubscriptions st ref = None
      then st \<lparr> serverSubscriptions := (serverSubscriptions st)(ref \<mapsto> {}) \<rparr>
      else st)"

text \<open>The loop body over properties, shared by \<^verbatim>\<open>initializeServer\<close> and
  \<^verbatim>\<open>applyThingToAllServers\<close>.\<close>

definition registerProperty :: "nat \<Rightarrow> TranslatedProperty \<Rightarrow> McpServer
    \<Rightarrow> error option \<times> McpServer" where
  "registerProperty ref prop st =
     andThen (registerPropertyGetterToolOnServer ref prop st)
       (\<lambda>st1. if p_writable prop then registerPropertySetterToolOnServer ref prop st1
               else (None, st1))"

definition initializeServer :: "nat \<Rightarrow> McpServer \<Rightarrow> error option \<times> McpServer" where
  "initializeServer ref st =
     andThen (andThen
       (if strategyOf st = Explicit
        then andThen (forEach (registerProperty ref) (map snd (properties st)) st)
               (forEach (registerActionToolOnServer ref) (map snd (actions st)))
        else registerGenericTools ref st)
       (forEach (registerEventResourceOnServer ref) (map snd (events st))))
       (\<lambda>st2. (None, setupSubscriptionHandlers ref st2))"

text \<open>The handlers of the subscribe and unsubscribe requests of one instance.\<close>

definition subscribe :: "nat \<Rightarrow> string \<Rightarrow> McpServer \<Rightarrow> McpServer" where
  "subscribe ref uri st =
     (case serverSubscriptions st ref of
        Some subs \<Rightarrow> st \<lparr> serverSubscriptions := (serverSubscriptions st)(ref \<mapsto> insert uri subs) \<rparr>
      | None \<Rightarrow> st)"

definition unsubscribe :: "nat \<Rightarrow> string \<Rightarrow> McpServer \<Rightarrow> McpServer" where
  "unsubscribe ref uri st =
     (case serverSubscriptions st ref of
        Some subs \<Rightarrow> st \<lparr> serverSubscriptions := (serverSubscriptions st)(ref \<mapsto> subs - {uri}) \<rparr>
      | None \<Rightarrow> st)"

subsection \<open>Registering a thing\<close>

text \<open>The instances the fan-out loops visit: the stdio instance, then the sessions.\<close>

definition servers :: "McpServer \<Rightarrow> nat list" where
  "servers st = (case stdioServer st of None \<Rightarrow> [] | Some ref \<Rightarrow> [ref]) @ map snd (sessions st)"

definition applyThingToServer :: "TranslatedThing \<Rightarrow> nat \<Rightarrow> McpServer
    \<Rightarrow> error option \<times> McpServer" where
  "applyThingToServer thing ref st =
     andThen
       (if strategyOf st = Explicit
        then andThen (forEach (registerProperty ref) (t_properties thing) st)
               (forEach (registerActionToolOnServer ref) (t_actions thing))
        else (None, st))
       (forEach (registerEventResourceOnServer ref) (t_events thing))"

definition applyThingToAllServers :: "TranslatedThing \<Rightarrow> McpServer \<Rightarrow> error option \<times> McpServer" where
  "applyThingToAllServers thing st = forEach (applyThingToServer thing) (servers st) st"

definition registerThing :: "TranslatedThing \<Rightarrow> McpServer \<Rightarrow> error option \<times> McpServer" where
  "registerThing thing st =
     (let st1 = st \<lparr> things := mapSet (t_id thing) thing (things st) \<rparr>;
          st2 = fold (\<lambda>prop s. s \<lparr> properties := mapSet (p_uri prop) prop (properties s) \<rparr>)
                  (t_properties thing) st1;
          st3 = fold (\<lambda>action s. s \<lparr> actions := mapSet (a_name action) action (actions s) \<rparr>)
                  (t_actions thing) st2;
          st4 = fold (\<lambda>event s. s \<lparr> events := mapSet (e_uri event) event (events s),
                                      eventBuffer := initialize (e_uri event) (eventBuffer s) \<rparr>)
                  (t_events thing) st3
      in applyThingToAllServers thing st4)"

subsection \<open>Notifications\<close>

definition connected :: "McpServer \<Rightarrow> nat \<Rightarrow> bool" where
  "connected st ref = (case store st ref of None \<Rightarrow> False | Some srv \<Rightarrow> transport srv)"

definition eventUri :: "string \<Rightarrow> string \<Rightarrow> string" where
  "eventUri thingId eventName = ''wot://'' @ thingId @ ''/events/'' @ eventName"

definition notifyUpdated :: "string \<Rightarrow> nat \<Rightarrow> McpServer \<Rightarrow> McpServer" where
  "notifyUpdated uri ref st =
     (if connected st ref \<and>
         (case serverSubscriptions st ref of None \<Rightarrow> False | Some subs \<Rightarrow> uri \<in> subs)
      then onServer ref (notification (ResourceUpdated uri)) st
      else st)"

definition handleWotEvent :: "int \<Rightarrow> string \<Rightarrow> string \<Rightarrow> json option \<Rightarrow> McpServer \<Rightarrow> McpServer" where
  "handleWotEvent now thingId eventName d st =
     (let uri = eventUri thingId eventName;
          st1 = st \<lparr> eventBuffer := snd (push now uri eventName d (eventBuffer st)) \<rparr>
      in fold (notifyUpdated uri) (servers st1) st1)"

definition notifyListChanged :: "nat \<Rightarrow> McpServer \<Rightarrow> McpServer" where
  "notifyListChanged ref st =
     (if connected st ref then onServer ref (notification ResourceListChanged) st else st)"

definition notifyResourceListChanged :: "McpServer \<Rightarrow> McpServer" where
  "notifyResourceListChanged st = fold notifyListChanged (servers st) st"

subsection \<open>Tool bodies\<close>

definition logCall :: "DeviceCall \<Rightarrow> McpServer \<Rightarrow> McpServer" where
  "logCall c st = st \<lparr> deviceLog := deviceLog st @ [c] \<rparr>"

definition ok :: "resultText \<Rightarrow> CallToolResult" where
  "ok t = \<lparr> isError = False, content = t \<rparr>"

definition invokePropertyGetter :: "TranslatedProperty \<Rightarrow> McpServer
    \<Rightarrow> (error + CallToolResult) \<times> McpServer" where
  "invokePropertyGetter prop st =
     (case propertyReader st of
        None \<Rightarrow> (Inl (Error ''Property reader not configured''), st)
      | Some reader \<Rightarrow>
          (case matchPropertyUri (p_uri prop) of
             None \<Rightarrow> (Inl (Error (''Invalid property URI: '' @ p_uri prop)), st)
           | Some (thingId, propName) \<Rightarrow>
               (let st1 = logCall (ReadCall thingId propName) st in
                case reader thingId propName of
                  Inl e \<Rightarrow> (Inl e, st1)
                | Inr v \<Rightarrow>
                    (Inr (ok (Stringify (JObj
                       ([(''name'', JStr (p_wotName prop))]
                        @ (case v of None \<Rightarrow> [] | Some x \<Rightarrow> [(''value'', x)])
                        @ (if truthy (p_schema prop)
                           then (case field (the (p_schema prop)) ''unit'' of
                                   None \<Rightarrow> [] | Some u \<Rightarrow> [(''unit'', u)])
                           else []))))), st1))))"

text \<open>\<^verbatim>\<open>args?.value\<close>.\<close>

definition argValue :: "json option \<Rightarrow> json option" where
  "argValue args = (case args of None \<Rightarrow> None | Some a \<Rightarrow> field a ''value'')"

definition invokePropertySetter :: "TranslatedProperty \<Rightarrow> json option \<Rightarrow> McpServer
    \<Rightarrow> (error + CallToolResult) \<times> McpServer" where
  "invokePropertySetter prop args st =
     (case propertyWriter st of
        None \<Rightarrow> (Inl (Error ''Property writer not configured''), st)
      | Some writer \<Rightarrow>
          (case matchPropertyUri (p_uri prop) of
             None \<Rightarrow> (Inl (Error (''Invalid property URI: '' @ p_uri prop)), st)
           | Some (thingId, propName) \<Rightarrow>
               (let st1 = logCall (WriteCall thingId propName (argValue args)) st in
                case writer thingId propName (argValue args) of
                  Inl e \<Rightarrow> (Inl e, st1)
                | Inr u \<Rightarrow>
                    (Inr (ok (Lit (''Property '' @ propName @ '' updated successfully''))), st1))))"

definition invokeActionTool :: "TranslatedAction \<Rightarrow> json option \<Rightarrow> McpServer
    \<Rightarrow> (error + CallToolResult) \<times> McpServer" where
  "invokeActionTool action args st =
     (case actionInvoker st of
        None \<Rightarrow> (Inl (Error ''Action invoker not configured''), st)
      | Some invoker \<Rightarrow>
          (let params = (if a_inputWrapped action \<and> truthy args
                         then field (the args) ''value'' else args);
               st1 = logCall (InvokeCall (a_thingId action) (a_wotName action) params) st
           in case invoker (a_thingId action) (a_wotName action) params of
                Inl e \<Rightarrow> (Inl e, st1)
              | Inr r \<Rightarrow>
                  (Inr (ok (case r of
                              Some v \<Rightarrow> Stringify v
                            | None \<Rightarrow> Lit ''Action executed successfully'')), st1)))"

text \<open>The \<^verbatim>\<open>catch\<close> of the generic tools: \<^verbatim>\<open>Error: ${error.message || error}\<close>.\<close>

definition caught :: "(error + CallToolResult) \<times> McpServer \<Rightarrow> CallToolResult \<times> McpServer" where
  "caught r =
     (case r of
        (Inl (Error msg), st) \<Rightarrow>
          (\<lparr> isError = True,
             content = Lit (''Error: '' @ (if msg \<noteq> [] then msg else ''Error'')) \<rparr>, st)
      | (Inr res, st) \<Rightarrow> (res, st))"

text \<open>The generic tools, on the arguments their input schemas name (\<^verbatim>\<open>device_id\<close> and
  the capability name are strings).\<close>

definition read_property :: "string \<Rightarrow> string \<Rightarrow> McpServer \<Rightarrow> CallToolResult \<times> McpServer" where
  "read_property device_id property_name st =
     caught
       (case map_of (things st) device_id of
          None \<Rightarrow> (Inl (Error (''Device '' @ [CHR 0x27] @ device_id @ [CHR 0x27] @ '' not found.'')), st)
        | Some thing \<Rightarrow>
            (case find (\<lambda>p. p_wotName p = property_name) (t_properties thing) of
               None \<Rightarrow> (Inl (Error (''Property '' @ [CHR 0x27] @ property_name @ [CHR 0x27]
                          @ '' not found on device '' @ [CHR 0x27] @ device_id @ [CHR 0x27] @ ''.'')), st)
             | Some prop \<Rightarrow> invokePropertyGetter prop st))"

definition write_property :: "string \<Rightarrow> string \<Rightarrow> json option \<Rightarrow> McpServer
    \<Rightarrow> CallToolResult \<times> McpServer" where
  "write_property device_id property_name v st =
     caught
       (case map_of (things st) device_id of
          None \<Rightarrow> (Inl (Error (''Device '' @ [CHR 0x27] @ device_id @ [CHR 0x27] @ '' not found.'')), st)
        | Some thing \<Rightarrow>
            (case find (\<lambda>p. p_wotName p = property_name) (t_properties thing) of
               None \<Rightarrow> (Inl (Error (''Property '' @ [CHR 0x27] @ property_name @ [CHR 0x27]
                          @ '' not found on device '' @ [CHR 0x27] @ device_id @ [CHR 0x27] @ ''.'')), st)
             | Some prop \<Rightarrow>
                 (if \<not> p_writable prop
                  then (Inl (Error (''Property '' @ [CHR 0x27] @ property_name @ [CHR 0x27]
                          @ '' is read-only.'')), st)
                  else invokePropertySetter prop
                         (Some (JObj (case v of None \<Rightarrow> [] | Some x \<Rightarrow> [(''value'', x)]))) st)))"

definition invoke_action :: "string \<Rightarrow> string \<Rightarrow> json option \<Rightarrow> McpServer
    \<Rightarrow> CallToolResult \<times> McpServer" where
  "invoke_action device_id action_name params st =
     caught
       (case map_of (things st) device_id of
          None \<Rightarrow> (Inl (Error (''Device '' @ [CHR 0x27] @ device_id @ [CHR 0x27] @ '' not found.'')), st)
        | Some thing \<Rightarrow>
            (case find (\<lambda>a. a_wotName a = action_name) (t_actions thing) of
               None \<Rightarrow> (Inl (Error (''Action '' @ [CHR 0x27] @ action_name @ [CHR 0x27]
                          @ '' not found on device '' @ [CHR 0x27] @ device_id @ [CHR 0x27] @ ''.'')), st)
             | Some action \<Rightarrow> invokeActionTool action params st))"

subsection \<open>Starting, sessions, stopping\<close>

datatype TransportMode = Stdio | StreamableHttp

definition start :: "TransportMode \<Rightarrow> McpServer \<Rightarrow> error option \<times> McpServer" where
  "start mode st =
     (case mode of
        Stdio \<Rightarrow>
          (let (ref, st1) = createMcpServerInstance st;
               st2 = st1 \<lparr> stdioServer := Some ref \<rparr>
           in andThen (initializeServer ref st2) (\<lambda>st3. (None, onServer ref connect st3)))
      | StreamableHttp \<Rightarrow> (None, st \<lparr> httpServer := True \<rparr>))"

text \<open>
  The handler of \<^verbatim>\<open>/mcp\<close>. Its inputs: the \<^verbatim>\<open>mcp-session-id\<close> header; the value that
  \<^verbatim>\<open>crypto.randomUUID()\<close> returns if it is called; and whether the transport, handling
  this request, calls \<^verbatim>\<open>onsessioninitialized\<close> (it does for the initialization request
  of a session). The response is a 404, or whatever the transport of an instance makes
  of the request; if \<^verbatim>\<open>initializeServer\<close> throws, the handler is left by the exception
  before a transport exists.
\<close>

datatype Response = SessionNotFound | HandledBy nat | Rejected error

definition handleMcpRequest :: "string option \<Rightarrow> string \<Rightarrow> bool \<Rightarrow> McpServer
    \<Rightarrow> Response \<times> McpServer" where
  "handleMcpRequest sessionId uuid initializes st =
     (if sessionId = None \<or> sessionId = Some []
      then (let (ref, st1) = createMcpServerInstance st
            in case initializeServer ref st1 of
                 (Some e, st2) \<Rightarrow> (Rejected e, st2)
               | (None, st2) \<Rightarrow>
                   (let st3 = onServer ref connect st2;
                        st4 = (if initializes
                               then st3 \<lparr> sessions := mapSet uuid ref (sessions st3) \<rparr>
                               else st3)
                    in (HandledBy ref, st4)))
      else (case map_of (sessions st) (the sessionId) of
              None \<Rightarrow> (SessionNotFound, st)
            | Some ref \<Rightarrow> (HandledBy ref, st)))"

text \<open>\<^verbatim>\<open>transport.onclose\<close> of the session created with \<open>newSessionId\<close> and the
  instance at \<open>ref\<close>.\<close>

definition onclose :: "string \<Rightarrow> nat \<Rightarrow> McpServer \<Rightarrow> McpServer" where
  "onclose newSessionId ref st =
     st \<lparr> sessions := mapDelete newSessionId (sessions st),
          serverSubscriptions := (serverSubscriptions st)(ref := None) \<rparr>"

definition stop :: "McpServer \<Rightarrow> McpServer" where
  "stop st =
     st \<lparr> serverSubscriptions := Map.empty,
          sessions := (if httpServer st then [] else sessions st),
          httpServer := False,
          stdioServer := None \<rparr>"

section \<open>WotClient (src/client/WotClient.ts) and WotMcpBridge (src/bridge/WotMcpBridge.ts)\<close>









section \<open>Vocabulary for the properties below\<close>






text \<open>The tools of the explicit strategy for a list of properties and a list of actions.\<close>

definition propertyTools :: "TranslatedProperty \<Rightarrow> (string \<times> ToolHandler) list" where
  "propertyTools prop =
     (propertyToolName ''get'' prop, GetterTool prop)
     # (if p_writable prop then [(propertyToolName ''set'' prop, SetterTool prop)] else [])"

definition explicitTools :: "TranslatedProperty list \<Rightarrow> TranslatedAction list
    \<Rightarrow> (string \<times> ToolHandler) list" where
  "explicitTools props acts =
     concat (map propertyTools props) @ map (\<lambda>a. (actionToolName a, ActionTool a)) acts"


definition eventResources :: "TranslatedEvent list \<Rightarrow> (string \<times> string \<times> TranslatedEvent) list" where
  "eventResources evs = map (\<lambda>e. (e_name e, e_uri e, e)) evs"

text \<open>The converter accepts the value schema of every writable property and the input
  schema of every action.\<close>

definition converts :: "TranslatedProperty list \<Rightarrow> TranslatedAction list \<Rightarrow> bool" where
  "converts props acts =
     (list_all (\<lambda>p. \<not> (p_writable p \<and>
                         isl (jsonSchemaToZod (if truthy (p_schema p) then the (p_schema p)
                                               else JObj [(''type'', JStr ''string'')])))) props
      \<and> list_all (\<lambda>a. \<not> isl (jsonSchemaToZodObject (a_inputSchema a))) acts)"

text \<open>An instance accepts a list of tools: their names differ from one another and from
  the names it has, and its handlers for tools are installed or can still be. Likewise
  for resources and their URIs.\<close>

definition acceptsTools :: "(string \<times> ToolHandler) list \<Rightarrow> SdkMcpServer \<Rightarrow> bool" where
  "acceptsTools ts srv =
     (distinct (map fst ts @ map fst (tools srv))
      \<and> (ts = [] \<or> toolHandlers srv \<or> \<not> transport srv))"

definition acceptsResources :: "(string \<times> string \<times> TranslatedEvent) list \<Rightarrow> SdkMcpServer
    \<Rightarrow> bool" where
  "acceptsResources rs srv =
     (distinct (map (\<lambda>r. fst (snd r)) rs @ map (\<lambda>r. fst (snd r)) (resources srv))
      \<and> (rs = [] \<or> resourceHandlers srv \<or> \<not> transport srv))"

text \<open>An instance after a list of tools (of resources) has been registered on it.\<close>

definition addTools :: "(string \<times> ToolHandler) list \<Rightarrow> SdkMcpServer \<Rightarrow> SdkMcpServer" where
  "addTools ts srv =
     srv \<lparr> tools := tools srv @ ts,
           toolHandlers := (toolHandlers srv \<or> ts \<noteq> []),
           notifications := notifications srv
             @ (if transport srv then replicate (length ts) ToolListChanged else []) \<rparr>"

definition addResources :: "(string \<times> string \<times> TranslatedEvent) list \<Rightarrow> SdkMcpServer
    \<Rightarrow> SdkMcpServer" where
  "addResources rs srv =
     srv \<lparr> resources := resources srv @ rs,
           resourceHandlers := (resourceHandlers srv \<or> rs \<noteq> []),
           notifications := notifications srv
             @ (if transport srv then replicate (length rs) ResourceListChanged else []) \<rparr>"

definition provisioned :: "(string \<times> ToolHandler) list \<Rightarrow> (string \<times> string \<times> TranslatedEvent) list
    \<Rightarrow> SdkMcpServer \<Rightarrow> SdkMcpServer" where
  "provisioned ts rs srv = addResources rs (addTools ts srv)"


definition thingTools :: "McpServer \<Rightarrow> TranslatedThing \<Rightarrow> (string \<times> ToolHandler) list" where
  "thingTools st thing =
     (if strategyOf st = Explicit then explicitTools (t_properties thing) (t_actions thing)
      else [])"


text \<open>Every instance that the fan-out visits accepts the tools and the resources of a
  thing, and the schemas of the thing convert.\<close>

definition applicable :: "TranslatedThing \<Rightarrow> McpServer \<Rightarrow> bool" where
  "applicable thing st =
     ((strategyOf st = Explicit \<longrightarrow> converts (t_properties thing) (t_actions thing))
      \<and> list_all (\<lambda>ref. case store st ref of
                          None \<Rightarrow> False
                        | Some srv \<Rightarrow> acceptsTools (thingTools st thing) srv
                            \<and> acceptsResources (eventResources (t_events thing)) srv)
          (servers st))"

text \<open>A state apart from its instances.\<close>

definition unstored :: "McpServer \<Rightarrow> McpServer" where
  "unstored st = st \<lparr> store := Map.empty \<rparr>"

text \<open>The registry and the event buffer after the first four steps of \<^verbatim>\<open>registerThing\<close>.\<close>

definition registered :: "TranslatedThing \<Rightarrow> McpServer \<Rightarrow> McpServer" where
  "registered thing st =
     st \<lparr> things := mapSet (t_id thing) thing (things st),
          properties := fold (\<lambda>p. mapSet (p_uri p) p) (t_properties thing) (properties st),
          actions := fold (\<lambda>a. mapSet (a_name a) a) (t_actions thing) (actions st),
          events := fold (\<lambda>e. mapSet (e_uri e) e) (t_events thing) (events st),
          eventBuffer := fold (\<lambda>e. initialize (e_uri e)) (t_events thing) (eventBuffer st) \<rparr>"

subsection \<open>Runs\<close>

text \<open>What can happen to a server, one after the other: the calls of its public methods,
  the requests and closures that its handlers are called for, and the calls of the tools.
  A call that throws leaves the state as the throw left it.\<close>

datatype Step =
    Start TransportMode
  | Request "string option" string bool
  | Closed string nat
  | Subscribe nat string
  | Unsubscribe nat string
  | RegisterThing TranslatedThing
  | NotifyResourceListChanged
  | WotEvent int string string "json option"
  | SetCallbacks PropertyReader PropertyWriter ActionInvoker
  | CallGetter TranslatedProperty
  | CallSetter TranslatedProperty "json option"
  | CallAction TranslatedAction "json option"
  | CallReadProperty string string
  | CallWriteProperty string string "json option"
  | CallInvokeAction string string "json option"
  | Stop

fun step :: "Step \<Rightarrow> McpServer \<Rightarrow> McpServer" where
  "step (Start mode) st = snd (start mode st)"
| "step (Request sessionId uuid initializes) st = snd (handleMcpRequest sessionId uuid initializes st)"
| "step (Closed newSessionId ref) st = onclose newSessionId ref st"
| "step (Subscribe ref uri) st = subscribe ref uri st"
| "step (Unsubscribe ref uri) st = unsubscribe ref uri st"
| "step (RegisterThing thing) st = snd (registerThing thing st)"
| "step NotifyResourceListChanged st = notifyResourceListChanged st"
| "step (WotEvent now thingId eventName d) st = handleWotEvent now thingId eventName d st"
| "step (SetCallbacks r w i) st = setCallbacks r w i st"
| "step (CallGetter p) st = snd (invokePropertyGetter p st)"
| "step (CallSetter p args) st = snd (invokePropertySetter p args st)"
| "step (CallAction a args) st = snd (invokeActionTool a args st)"
| "step (CallReadProperty device_id property_name) st =
     snd (read_property device_id property_name st)"
| "step (CallWriteProperty device_id property_name v) st =
     snd (write_property device_id property_name v st)"
| "step (CallInvokeAction device_id action_name params) st =
     snd (invoke_action device_id action_name params st)"
| "step Stop st = stop st"

definition run :: "Step list \<Rightarrow> McpServer \<Rightarrow> McpServer" where
  "run steps st = fold step steps st"

text \<open>The session identifiers that the server generated in the course of a run.\<close>

fun issuedBy :: "Step \<Rightarrow> string list" where
  "issuedBy (Request sessionId uuid initializes) =
     (if sessionId = None \<or> sessionId = Some [] then [uuid] else [])"
| "issuedBy _ = []"

definition issued :: "Step list \<Rightarrow> string set" where
  "issued steps = set (concat (map issuedBy steps))"

text \<open>The instances that the fan-out visits are distinct objects, allocated before.\<close>

definition inv :: "McpServer \<Rightarrow> bool" where
  "inv st = (distinct (servers st) \<and> list_all (\<lambda>r. r < nextAddress st) (servers st))"

subsection \<open>Example states\<close>

definition cfg0 :: McpServerConfig where
  "cfg0 = \<lparr> c_name = ''wot-mcp'', c_version = ''1.0.0'', eventBufferSize = None,
            toolStrategy = None \<rparr>"


text \<open>A lamp with an action that declares no input and one whose input is an integer.\<close>

definition toggleTd :: ThingDescription where
  "toggleTd =
     \<lparr> td_id = Some ''urn:dev:ops:lamp'', td_title = ''Lamp'', td_description = None,
       td_properties = None,
       td_actions = Some [(''toggle'', JObj [(''description'', JStr ''Toggle the lamp'')]),
                          (''dim'', JObj [(''input'', JObj [(''type'', JStr ''integer'')])])],
       td_events = None \<rparr>"

text \<open>A server whose three callbacks are set and answer every call.\<close>

definition answering :: McpServer where
  "answering =
     setCallbacks (\<lambda>t n. Inr (Some (JNum 0))) (\<lambda>t n v. Inr ()) (\<lambda>t n p. Inr None)
       (newMcpServer cfg0)"

text \<open>A sensor with a read-only property, a writable one, an action and an event.\<close>

definition sensorTd :: ThingDescription where
  "sensorTd =
     \<lparr> td_id = Some ''urn:dev:ops:sensor'', td_title = ''Sensor'', td_description = None,
       td_properties = Some [(''temperature'', JObj [(''type'', JStr ''number''),
                                                     (''readOnly'', JBool True)]),
                             (''interval'', JObj [(''type'', JStr ''integer'')])],
       td_actions = Some [(''reset'', JObj [])],
       td_events = Some [(''overheated'', JObj [])] \<rparr>"



text \<open>The same sensor, described anew with its property \<open>interval\<close> read-only.\<close>

definition sensorTdReadOnly :: ThingDescription where
  "sensorTdReadOnly =
     sensorTd \<lparr> td_properties :=
       Some [(''temperature'', JObj [(''type'', JStr ''number''), (''readOnly'', JBool True)]),
             (''interval'', JObj [(''type'', JStr ''integer''), (''readOnly'', JBool True)])] \<rparr>"


text \<open>A run: multiplexed mode started, and one initialization request without a session
  header, for which the identifier \<open>A\<close> was generated.\<close>

definition oneSession :: McpServer where
  "oneSession = run [Start StreamableHttp, Request None ''A'' True] (newMcpServer cfg0)"



section \<open>Properties of the event buffer\<close>

lemma push_maxEvents: "maxEvents (snd (push now u ty d eb)) = maxEvents eb"
  by (simp add: push_def Let_def)

lemma push_other: "u \<noteq> uri \<Longrightarrow> buffers (snd (push now u ty d eb)) uri = buffers eb uri"
  by (simp add: push_def Let_def)

lemma push_same:
  "buffers (snd (push now uri ty d eb)) uri =
     Some (let pushed = bufOf eb uri @ [\<lparr> timestamp = now, data = d, eventType = ty \<rparr>]
           in if int (length pushed) > maxEvents eb then tl pushed else pushed)"
  by (simp add: push_def Let_def bufOf_def)

lemma push_event: "fst (push now uri ty d eb) = \<lparr> timestamp = now, data = d, eventType = ty \<rparr>"
  by (simp add: push_def Let_def)

lemma count_bufOf: "count uri eb = length (bufOf eb uri)"
  by (simp add: count_def bufOf_def split: option.splits)

lemma newest_tl: "m < length xs \<Longrightarrow> newest m (tl xs) = newest m xs"
  by (cases xs) (simp_all add: newest_def Suc_diff_le)

lemma eventsFor_Cons:
  "eventsFor uri ((now, u, ty, d) # ops) =
     (if u = uri then \<lparr> timestamp = now, data = d, eventType = ty \<rparr> # eventsFor uri ops
      else eventsFor uri ops)"
  by (simp add: eventsFor_def)

lemma push_keeps_cap:
  assumes "0 \<le> maxEvents eb" and "length (bufOf eb uri) \<le> nat (maxEvents eb)"
  shows "length (bufOf (snd (push now u ty d eb)) uri) \<le> nat (maxEvents eb)"
proof (cases "u = uri")
  case True
  then show ?thesis using assms by (auto simp: bufOf_def [of "snd _"] push_same Let_def)
next
  case False
  then show ?thesis using assms by (simp add: bufOf_def [of "snd _"] push_other) (simp add: bufOf_def)
qed

text \<open>After any sequence of pushes, the buffer of a resource holds the newest
  \<open>maxEvents\<close> of what it held before followed by what was pushed to it.\<close>

lemma pushAll_bufOf:
  "0 \<le> maxEvents eb \<Longrightarrow> length (bufOf eb uri) \<le> nat (maxEvents eb) \<Longrightarrow>
   bufOf (pushAll ops eb) uri = newest (nat (maxEvents eb)) (bufOf eb uri @ eventsFor uri ops)"
proof (induction ops arbitrary: eb)
  case Nil
  then show ?case by (simp add: eventsFor_def newest_def)
next
  case (Cons op ops)
  obtain now u ty d where op: "op = (now, u, ty, d)" by (cases op) auto
  let ?eb1 = "snd (push now u ty d eb)"
  have m1: "maxEvents ?eb1 = maxEvents eb" by (rule push_maxEvents)
  have len: "length (bufOf ?eb1 uri) \<le> nat (maxEvents eb)"
    using Cons.prems by (rule push_keeps_cap)
  have ih: "bufOf (pushAll ops ?eb1) uri =
      newest (nat (maxEvents ?eb1)) (bufOf ?eb1 uri @ eventsFor uri ops)"
    using Cons.prems len by (intro Cons.IH) (simp_all add: m1)
  show ?case
  proof (cases "u = uri")
    case False
    then have b: "bufOf ?eb1 uri = bufOf eb uri" by (simp add: bufOf_def push_other)
    show ?thesis using ih False by (simp add: op b eventsFor_Cons m1)
  next
    case True
    let ?e = "\<lparr> timestamp = now, data = d, eventType = ty \<rparr>"
    let ?pushed = "bufOf eb uri @ [?e]"
    have b: "bufOf ?eb1 uri = (if int (length ?pushed) > maxEvents eb then tl ?pushed else ?pushed)"
      using True by (simp add: bufOf_def [of "snd _"] push_same Let_def)
    show ?thesis
    proof (cases "int (length ?pushed) > maxEvents eb")
      case False
      then have "bufOf ?eb1 uri @ eventsFor uri ops = ?pushed @ eventsFor uri ops"
        by (simp add: b)
      then have "bufOf (pushAll ops ?eb1) uri =
          newest (nat (maxEvents eb)) (?pushed @ eventsFor uri ops)"
        using ih by (simp only: m1)
      then show ?thesis using True by (simp add: op eventsFor_Cons)
    next
      case over: True
      have lt: "nat (maxEvents eb) < length (?pushed @ eventsFor uri ops)"
        using over Cons.prems by simp
      have "bufOf ?eb1 uri @ eventsFor uri ops = tl (?pushed @ eventsFor uri ops)"
        using over by (cases "bufOf eb uri") (simp_all add: b)
      then have "bufOf (pushAll ops ?eb1) uri =
          newest (nat (maxEvents eb)) (?pushed @ eventsFor uri ops)"
        using ih newest_tl [OF lt] by (simp only: m1)
      then show ?thesis using True by (simp add: op eventsFor_Cons)
    qed
  qed
qed

lemma pushAll_keeps_buffer: "buffers eb uri \<noteq> None \<Longrightarrow> buffers (pushAll ops eb) uri \<noteq> None"
proof (induction ops arbitrary: eb)
  case Nil
  then show ?case by simp
next
  case (Cons op ops)
  obtain now u ty d where op: "op = (now, u, ty, d)" by (cases op) auto
  have "buffers (snd (push now u ty d eb)) uri \<noteq> None"
    using Cons.prems by (cases "u = uri") (simp_all add: push_same push_other)
  then show ?case using Cons.IH by (simp add: op)
qed

lemma pushAll_creates_buffer: "eventsFor uri ops \<noteq> [] \<Longrightarrow> buffers (pushAll ops eb) uri \<noteq> None"
proof (induction ops arbitrary: eb)
  case Nil
  then show ?case by (simp add: eventsFor_def)
next
  case (Cons op ops)
  obtain now u ty d where op: "op = (now, u, ty, d)" by (cases op) auto
  show ?case
  proof (cases "u = uri")
    case True
    have "buffers (snd (push now u ty d eb)) uri \<noteq> None" using True by (simp add: push_same)
    then show ?thesis by (simp add: op pushAll_keeps_buffer)
  next
    case False
    then show ?thesis using Cons by (simp add: op eventsFor_Cons)
  qed
qed

text \<open>The cap holds in a new buffer and every operation keeps it.\<close>

lemma cap_new: "count uri (newEventBuffer options) = 0"
  by (simp add: count_def newEventBuffer_def)

lemma cap_pruneExpired: "count uri (pruneExpired now u eb) \<le> count uri eb"
  by (simp add: count_def pruneExpired_def Let_def split: option.splits)

lemma cap_initialize: "count uri (initialize u eb) = count uri eb"
  by (simp add: count_def initialize_def split: option.splits)

text \<open>
  C2. With a cap \<open>maxEvents \<ge> 0\<close> and a buffer within it (as a new buffer is, and as
  every operation keeps it): every push, to any resource, leaves the buffer of each
  resource within the cap; and pushing \<open>maxEvents + k\<close> events (\<open>k \<ge> 1\<close>) to a resource,
  interleaved with pushes to other resources, leaves exactly \<open>maxEvents\<close> entries there,
  namely the pushed events without their \<open>k\<close> oldest. The default cap is 100.
\<close>

theorem push_buffer_bound:
  assumes "0 \<le> maxEvents eb" and "count uri eb \<le> nat (maxEvents eb)"
  shows "count uri (snd (push now u ty d eb)) \<le> nat (maxEvents eb)
       \<and> (1 \<le> k \<and> length (eventsFor uri ops) = nat (maxEvents eb) + k \<longrightarrow>
            buffers (pushAll ops eb) uri = Some (drop k (eventsFor uri ops))
          \<and> count uri (pushAll ops eb) = nat (maxEvents eb))
       \<and> maxEvents (newEventBuffer noOptions) = 100"
proof (intro conjI impI)
  show "count uri (snd (push now u ty d eb)) \<le> nat (maxEvents eb)"
    using assms push_keeps_cap [of eb uri now u ty d] by (simp add: count_bufOf)
  show "maxEvents (newEventBuffer noOptions) = 100"
    by (simp add: newEventBuffer_def noOptions_def)
next
  assume k: "1 \<le> k \<and> length (eventsFor uri ops) = nat (maxEvents eb) + k"
  let ?evs = "eventsFor uri ops"
  have "bufOf (pushAll ops eb) uri = newest (nat (maxEvents eb)) (bufOf eb uri @ ?evs)"
    using assms by (intro pushAll_bufOf) (simp_all add: count_bufOf)
  also have "\<dots> = drop k ?evs"
    using k by (simp add: newest_def)
  finally have b: "bufOf (pushAll ops eb) uri = drop k ?evs" .
  have "?evs \<noteq> []" using k by auto
  then have "buffers (pushAll ops eb) uri \<noteq> None" by (rule pushAll_creates_buffer)
  then show "buffers (pushAll ops eb) uri = Some (drop k ?evs)"
    using b by (auto simp: bufOf_def)
  show "count uri (pushAll ops eb) = nat (maxEvents eb)"
    using b k by (simp add: count_bufOf)
qed

text \<open>A cap of 2 and three events pushed to \<open>r\<close>, one to \<open>q\<close> in between: the first
  event of \<open>r\<close> is gone.\<close>

theorem push_buffer_bound_witness:
  "buffers (pushAll [(1, ''r'', ''e'', None), (2, ''q'', ''e'', None),
                     (3, ''r'', ''e'', None), (4, ''r'', ''e'', None)]
      (newEventBuffer \<lparr> maxEventsPerUri = Some 2, eventTtlMsOpt = None \<rparr>)) ''r''
   = Some [\<lparr> timestamp = 3, data = None, eventType = ''e'' \<rparr>,
           \<lparr> timestamp = 4, data = None, eventType = ''e'' \<rparr>]"
  using push_buffer_bound [of "newEventBuffer \<lparr> maxEventsPerUri = Some 2, eventTtlMsOpt = None \<rparr>"
      "''r''" 0 "''r''" "''e''" None 1
      "[(1, ''r'', ''e'', None), (2, ''q'', ''e'', None),
        (3, ''r'', ''e'', None), (4, ''r'', ''e'', None)]"]
  by (simp add: newEventBuffer_def count_def eventsFor_def)

lemma filter_same_length: "length (filter P xs) = length xs \<Longrightarrow> filter P xs = xs"
  by (metis filter_True filter_id_conv length_filter_less less_irrefl)

lemma get_result: "fst (get now uri eb) = filter (fresh now eb) (bufOf eb uri)"
  by (auto simp add: get_def pruneExpired_def Let_def bufOf_def fresh_def [abs_def]
      filter_same_length split: option.splits)

lemma get_state:
  "buffers (snd (get now uri eb)) =
     (case buffers eb uri of None \<Rightarrow> buffers eb
      | Some b \<Rightarrow> (buffers eb)(uri \<mapsto> filter (fresh now eb) b))"
  by (auto simp add: get_def pruneExpired_def Let_def fresh_def [abs_def] filter_same_length
      fun_upd_idem split: option.splits)

text \<open>
  C3. \<open>get\<close> returns the buffered events younger than the TTL, in order, and stores that
  list as the buffer of the resource (nothing else changes). Whatever was pushed at time
  \<open>t\<close> is absent from a \<open>get\<close> at or after \<open>t + TTL\<close>, and present in a \<open>get\<close> that
  follows the push before that (cap at least 1). \<open>getSince\<close> and \<open>getRecent\<close> filter and
  slice that same pruned list and leave the same state. The default TTL is one hour.
\<close>

theorem get_prunes_expired:
  "fst (get now uri eb) = filter (fresh now eb) (bufOf eb uri)
   \<and> buffers (snd (get now uri eb)) uri = map_option (filter (fresh now eb)) (buffers eb uri)
   \<and> (\<forall>u. u \<noteq> uri \<longrightarrow> buffers (snd (get now uri eb)) u = buffers eb u)
   \<and> (eventTtlMs eb \<le> now - t \<longrightarrow> fst (push t uri ty d eb0) \<notin> set (fst (get now uri eb)))
   \<and> (now - t < eventTtlMs eb \<and> 1 \<le> maxEvents eb \<longrightarrow>
        fst (push t uri ty d eb) \<in> set (fst (get now uri (snd (push t uri ty d eb)))))
   \<and> getSince now uri (Some since) eb =
        (filter (\<lambda>e. since < timestamp e) (filter (fresh now eb) (bufOf eb uri)),
         snd (get now uri eb))
   \<and> getRecent now uri n eb =
        (slice (- n) (filter (fresh now eb) (bufOf eb uri)), snd (get now uri eb))
   \<and> eventTtlMs (newEventBuffer noOptions) = 60 * 60 * 1000"
proof (intro conjI allI impI)
  show "fst (get now uri eb) = filter (fresh now eb) (bufOf eb uri)" by (rule get_result)
  show "buffers (snd (get now uri eb)) uri = map_option (filter (fresh now eb)) (buffers eb uri)"
    by (simp add: get_state split: option.splits)
  show "buffers (snd (get now uri eb)) u = buffers eb u" if "u \<noteq> uri" for u
    using that by (simp add: get_state split: option.splits)
  show "fst (push t uri ty d eb0) \<notin> set (fst (get now uri eb))" if "eventTtlMs eb \<le> now - t"
    using that by (auto simp: get_result push_event fresh_def)
  show "fst (push t uri ty d eb) \<in> set (fst (get now uri (snd (push t uri ty d eb))))"
    if h: "now - t < eventTtlMs eb \<and> 1 \<le> maxEvents eb"
  proof -
    let ?e = "\<lparr> timestamp = t, data = d, eventType = ty \<rparr>"
    let ?eb1 = "snd (push t uri ty d eb)"
    have ttl: "eventTtlMs ?eb1 = eventTtlMs eb" by (simp add: push_def Let_def)
    have "?e \<in> set (bufOf ?eb1 uri)"
      using h by (cases "bufOf eb uri") (auto simp: bufOf_def [of "snd _"] push_same Let_def)
    moreover have "fresh now ?eb1 ?e" using h by (simp add: fresh_def ttl)
    ultimately show ?thesis by (simp add: get_result push_event)
  qed
  show "getSince now uri (Some since) eb =
      (filter (\<lambda>e. since < timestamp e) (filter (fresh now eb) (bufOf eb uri)), snd (get now uri eb))"
    using get_result [of now uri eb] by (cases "get now uri eb") (simp add: getSince_def)
  show "getRecent now uri n eb =
      (slice (- n) (filter (fresh now eb) (bufOf eb uri)), snd (get now uri eb))"
    using get_result [of now uri eb] by (cases "get now uri eb") (simp add: getRecent_def)
  show "eventTtlMs (newEventBuffer noOptions) = 60 * 60 * 1000"
    by (simp add: newEventBuffer_def noOptions_def)
qed

text \<open>Default TTL, an event pushed at clock 5: read at 3600004 it is there, read at
  3600005 it is not.\<close>

theorem get_prunes_expired_witness:
  "fst (get 3600004 ''r'' (snd (push 5 ''r'' ''e'' None (newEventBuffer noOptions))))
     = [\<lparr> timestamp = 5, data = None, eventType = ''e'' \<rparr>]
   \<and> fst (get 3600005 ''r'' (snd (push 5 ''r'' ''e'' None (newEventBuffer noOptions)))) = []
   \<and> \<lparr> timestamp = 5, data = None, eventType = ''e'' \<rparr>
       \<in> set (fst (get 3600004 ''r'' (snd (push 5 ''r'' ''e'' None (newEventBuffer noOptions)))))
   \<and> \<lparr> timestamp = 5, data = None, eventType = ''e'' \<rparr>
       \<notin> set (fst (get 3600005 ''r'' (snd (push 5 ''r'' ''e'' None (newEventBuffer noOptions)))))"
  using get_prunes_expired [of 3600004 "''r''"
      "snd (push 5 ''r'' ''e'' None (newEventBuffer noOptions))" 5 "''e''" None
      "newEventBuffer noOptions" 0 0]
    get_prunes_expired [of 3600005 "''r''"
      "snd (push 5 ''r'' ''e'' None (newEventBuffer noOptions))" 5 "''e''" None
      "newEventBuffer noOptions" 0 0]
  by (simp add: push_def newEventBuffer_def noOptions_def bufOf_def fresh_def Let_def)

text \<open>
  C10. \<open>getRecent\<close> with a count of 0 returns everything \<open>get\<close> returns (\<^verbatim>\<open>slice(-0)\<close> is
  \<^verbatim>\<open>slice(0)\<close>), so it is empty only when \<open>get\<close> is; with a count \<open>n \<ge> 1\<close> it returns
  the last \<open>n\<close> of those events.
\<close>

theorem getRecent_zero_returns_all:
  "fst (getRecent now uri 0 eb) = fst (get now uri eb)
   \<and> (1 \<le> n \<longrightarrow> fst (getRecent now uri n eb) = newest (nat n) (fst (get now uri eb)))"
proof (intro conjI impI)
  show "fst (getRecent now uri 0 eb) = fst (get now uri eb)"
    by (simp add: getRecent_def slice_def split: prod.splits)
  show "fst (getRecent now uri n eb) = newest (nat n) (fst (get now uri eb))" if "1 \<le> n"
  proof -
    have "slice (- n) xs = newest (nat n) xs" for xs :: "BufferedEvent list"
      using that by (auto simp: slice_def newest_def Let_def max_def nat_diff_distrib' intro: arg_cong2 [where f = drop])
    then show ?thesis by (simp add: getRecent_def split: prod.splits)
  qed
qed

theorem getRecent_zero_returns_all_witness:
  "fst (getRecent 10 ''r'' 0 (pushAll [(1, ''r'', ''a'', None), (2, ''r'', ''b'', None)]
        (newEventBuffer noOptions)))
     = [\<lparr> timestamp = 1, data = None, eventType = ''a'' \<rparr>,
        \<lparr> timestamp = 2, data = None, eventType = ''b'' \<rparr>]
   \<and> fst (getRecent 10 ''r'' 1 (pushAll [(1, ''r'', ''a'', None), (2, ''r'', ''b'', None)]
        (newEventBuffer noOptions)))
     = [\<lparr> timestamp = 2, data = None, eventType = ''b'' \<rparr>]"
  using getRecent_zero_returns_all [of 10 "''r''"
      "pushAll [(1, ''r'', ''a'', None), (2, ''r'', ''b'', None)] (newEventBuffer noOptions)" 1]
  by (simp add: get_def pruneExpired_def push_def newEventBuffer_def noOptions_def newest_def Let_def)

section \<open>Properties of the translator\<close>

lemma hyphen_not_alnum: "\<not> lowerAlnum CHR ''-''"
  by (simp add: lowerAlnum_def isLower_def isDigit_def code_def)

lemma replaceRuns_chars: "c \<in> set (replaceRuns s) \<Longrightarrow> lowerAlnum c \<or> c = CHR ''-''"
  by (induction s rule: replaceRuns.induct) (auto split: if_splits)

lemma trimHyphen_subset: "set (trimHyphen s) \<subseteq> set s"
  by (auto simp: trimHyphen_def Let_def split: list.splits if_splits dest: in_set_butlastD)

lemma replaceRuns_noDouble: "noDouble (replaceRuns s)"
proof (induction s rule: replaceRuns.induct)
  case 1
  then show ?case by simp
next
  case (2 c cs)
  show ?case
  proof (cases "lowerAlnum c")
    case True
    then have "c \<noteq> CHR ''-''" using hyphen_not_alnum by auto
    then show ?thesis using 2 True by (cases "replaceRuns cs") auto
  next
    case False
    let ?rest = "dropWhile (\<lambda>x. \<not> lowerAlnum x) cs"
    have "replaceRuns ?rest = [] \<or> hd (replaceRuns ?rest) \<noteq> CHR ''-''"
    proof (cases ?rest)
      case Nil
      then show ?thesis by (simp only: replaceRuns.simps) simp
    next
      case (Cons x xs)
      then have "lowerAlnum x" using hd_dropWhile [of "\<lambda>x. \<not> lowerAlnum x" cs] by auto
      then show ?thesis
        using hyphen_not_alnum by (auto simp only: Cons replaceRuns.simps if_True list.sel)
    qed
    then show ?thesis using 2 False by (cases "replaceRuns ?rest") auto
  qed
qed

lemma noDouble_tl: "noDouble (x # xs) \<Longrightarrow> noDouble xs"
  by (cases xs) auto

lemma noDouble_hd: "noDouble (CHR ''-'' # xs) \<Longrightarrow> xs = [] \<or> hd xs \<noteq> CHR ''-''"
  by (cases xs) auto

lemma noDouble_last: "noDouble s \<Longrightarrow> s \<noteq> [] \<Longrightarrow> last s = CHR ''-'' \<Longrightarrow>
   butlast s = [] \<or> last (butlast s) \<noteq> CHR ''-''"
  by (induction s rule: noDouble.induct) (auto split: if_splits)

text \<open>After the runs are collapsed, removing one hyphen at each end removes them all.\<close>

lemma trimHyphen_ends:
  assumes "noDouble s" and "trimHyphen s \<noteq> []"
  shows "hd (trimHyphen s) \<noteq> CHR ''-'' \<and> last (trimHyphen s) \<noteq> CHR ''-''"
proof -
  define s1 where "s1 = (case s of [] \<Rightarrow> [] | c # cs \<Rightarrow> if c = CHR ''-'' then cs else s)"
  have t: "trimHyphen s = (if s1 \<noteq> [] \<and> last s1 = CHR ''-'' then butlast s1 else s1)"
    by (simp add: trimHyphen_def s1_def)
  have nd1: "noDouble s1"
    using assms(1) by (auto simp: s1_def split: list.splits dest: noDouble_tl)
  have h1: "s1 = [] \<or> hd s1 \<noteq> CHR ''-''"
    using assms(1) by (auto simp: s1_def split: list.splits dest: noDouble_hd)
  show ?thesis
  proof (cases "s1 \<noteq> [] \<and> last s1 = CHR ''-''")
    case True
    then have eq: "trimHyphen s = butlast s1" using t by simp
    then have ne: "butlast s1 \<noteq> []" using assms(2) by simp
    have "last (butlast s1) \<noteq> CHR ''-''" using noDouble_last [OF nd1] True ne by auto
    moreover have "hd (butlast s1) = hd s1" using ne by (cases s1) (auto split: if_splits)
    ultimately show ?thesis using h1 True eq by simp
  next
    case False
    then show ?thesis using t h1 assms(2) by auto
  qed
qed

lemma dropWhile_hd: "s = [] \<or> \<not> P (hd s) \<Longrightarrow> dropWhile P s = s"
  by (cases s) auto

lemma trimHyphen_all:
  assumes "noDouble s"
  shows "trimHyphen s = trimAllHyphens s"
proof -
  define s1 where "s1 = (case s of [] \<Rightarrow> [] | c # cs \<Rightarrow> if c = CHR ''-'' then cs else s)"
  have t: "trimHyphen s = (if s1 \<noteq> [] \<and> last s1 = CHR ''-'' then butlast s1 else s1)"
    by (simp add: trimHyphen_def s1_def)
  have nd1: "noDouble s1"
    using assms(1) by (auto simp: s1_def split: list.splits dest: noDouble_tl)
  have h1: "s1 = [] \<or> hd s1 \<noteq> CHR ''-''"
    using assms(1) by (auto simp: s1_def split: list.splits dest: noDouble_hd)
  have d1: "dropWhile (\<lambda>c. c = CHR ''-'') s = s1"
    using h1 by (cases s) (auto simp: s1_def dropWhile_hd)
  have "rev (dropWhile (\<lambda>c. c = CHR ''-'') (rev s1)) =
      (if s1 \<noteq> [] \<and> last s1 = CHR ''-'' then butlast s1 else s1)"
  proof (cases "s1 \<noteq> [] \<and> last s1 = CHR ''-''")
    case True
    then obtain b where b: "s1 = b @ [CHR ''-'']" by (metis append_butlast_last_id)
    have "b = [] \<or> last b \<noteq> CHR ''-''" using noDouble_last [OF nd1] True b by auto
    then have "dropWhile (\<lambda>c. c = CHR ''-'') (rev b) = rev b"
      by (intro dropWhile_hd) (auto simp: hd_rev)
    then show ?thesis using True b by simp
  next
    case False
    then have "dropWhile (\<lambda>c. c = CHR ''-'') (rev s1) = rev s1"
      by (intro dropWhile_hd) (auto simp: hd_rev)
    then show ?thesis using False by auto
  qed
  then show ?thesis by (simp add: t trimAllHyphens_def d1)
qed

lemma split_nodelim: "\<forall>x\<in>set cs. \<not> isDelim x \<Longrightarrow> split cs = [cs]"
  by (induction cs) auto

lemma split_delim: "\<exists>x\<in>set cs. isDelim x \<Longrightarrow> \<exists>w v ws. split cs = w # v # ws"
proof (induction cs)
  case Nil
  then show ?case by simp
next
  case (Cons c cs)
  show ?case
  proof (cases "\<exists>x\<in>set cs. isDelim x")
    case True
    then obtain w v ws where "split cs = w # v # ws" using Cons.IH by blast
    then show ?thesis by auto
  next
    case False
    then have "split cs = [cs]" by (simp add: split_nodelim)
    moreover have "isDelim c" using Cons.prems False by auto
    ultimately show ?thesis by auto
  qed
qed

lemma last_split: "last (split s) = lastSegment s"
proof (induction s)
  case Nil
  then show ?case by (simp add: lastSegment_def)
next
  case (Cons c cs)
  show ?case
  proof (cases "\<exists>x\<in>set cs. isDelim x")
    case True
    then obtain w v ws where sp: "split cs = w # v # ws" using split_delim by blast
    have "lastSegment (c # cs) = lastSegment cs"
      using True by (auto simp: lastSegment_def takeWhile_append)
    moreover have "last (split (c # cs)) = last (split cs)" using sp by auto
    ultimately show ?thesis using Cons.IH by simp
  next
    case False
    then have sp: "split cs = [cs]" by (simp add: split_nodelim)
    have "lastSegment (c # cs) = (if isDelim c then cs else c # cs)"
      using False by (auto simp: lastSegment_def takeWhile_append)
    then show ?thesis using sp by auto
  qed
qed

lemma sanitizeId_chars: "c \<in> set (sanitizeId s) \<Longrightarrow> lowerAlnum c \<or> c = CHR ''-''"
  using trimHyphen_subset replaceRuns_chars unfolding sanitizeId_def by blast

lemma sanitizeId_ends:
  "sanitizeId s \<noteq> [] \<Longrightarrow> hd (sanitizeId s) \<noteq> CHR ''-'' \<and> last (sanitizeId s) \<noteq> CHR ''-''"
  unfolding sanitizeId_def by (rule trimHyphen_ends [OF replaceRuns_noDouble])

lemma extractThingId_source: "extractThingId td = sanitizeId (idSource td)"
  by (simp add: extractThingId_def idSource_def last_split split: option.splits)

lemma extractThingId_example:
  "extractThingId \<lparr> td_id = Some ''urn:dev:ops:My Light_01'', td_title = t, td_description = d,
     td_properties = ps, td_actions = as, td_events = es \<rparr> = ''my-light-01''"
  by code_simp

text \<open>
  C5. The thing id is the sanitized last colon- or slash-delimited segment of the
  identifier, or the sanitized title when there is no identifier (or an empty one);
  sanitizing is lowercasing, one hyphen for each run outside \<^verbatim>\<open>[a-z0-9]\<close>, and all
  leading and trailing hyphens trimmed. The identifier \<^verbatim>\<open>urn:dev:ops:My Light_01\<close> gives
  \<^verbatim>\<open>my-light-01\<close>. Every derived id has its characters in \<^verbatim>\<open>[a-z0-9-]\<close> and neither
  starts nor ends with a hyphen.
\<close>

theorem thing_id_sanitized:
  "extractThingId td = sanitizeId (idSource td)
   \<and> sanitizeId s = trimAllHyphens (replaceRuns (toLowerCase s))
   \<and> extractThingId \<lparr> td_id = Some ''urn:dev:ops:My Light_01'', td_title = t,
        td_description = d, td_properties = ps, td_actions = as, td_events = es \<rparr>
       = ''my-light-01''
   \<and> (\<forall>c \<in> set (extractThingId td). lowerAlnum c \<or> c = CHR ''-'')
   \<and> (extractThingId td \<noteq> [] \<longrightarrow>
        hd (extractThingId td) \<noteq> CHR ''-'' \<and> last (extractThingId td) \<noteq> CHR ''-'')"
proof (intro conjI ballI impI)
  show "extractThingId td = sanitizeId (idSource td)" by (rule extractThingId_source)
  show "sanitizeId s = trimAllHyphens (replaceRuns (toLowerCase s))"
    unfolding sanitizeId_def by (rule trimHyphen_all [OF replaceRuns_noDouble])
  show "extractThingId \<lparr> td_id = Some ''urn:dev:ops:My Light_01'', td_title = t,
        td_description = d, td_properties = ps, td_actions = as, td_events = es \<rparr>
       = ''my-light-01''"
    by (rule extractThingId_example)
  show "lowerAlnum c \<or> c = CHR ''-''" if "c \<in> set (extractThingId td)" for c
    using that by (simp add: extractThingId_source sanitizeId_chars)
  show "hd (extractThingId td) \<noteq> CHR ''-''" if "extractThingId td \<noteq> []"
    using that sanitizeId_ends by (simp add: extractThingId_source)
  show "last (extractThingId td) \<noteq> CHR ''-''" if "extractThingId td \<noteq> []"
    using that sanitizeId_ends by (simp add: extractThingId_source)
qed

lemma extractThingId_example2:
  "extractThingId \<lparr> td_id = Some ''http://plugfest.example/things/--Lamp #1--'',
       td_title = ''Lamp'', td_description = None, td_properties = None,
       td_actions = None, td_events = None \<rparr> = ''lamp-1''"
  by code_simp

text \<open>An identifier whose last segment has hyphens and other characters at both ends.\<close>

theorem thing_id_sanitized_witness:
  "extractThingId \<lparr> td_id = Some ''http://plugfest.example/things/--Lamp #1--'',
       td_title = ''Lamp'', td_description = None, td_properties = None,
       td_actions = None, td_events = None \<rparr> = ''lamp-1''
   \<and> list_all (\<lambda>c. lowerAlnum c \<or> c = CHR ''-'') ''lamp-1''
   \<and> hd ''lamp-1'' \<noteq> CHR ''-'' \<and> last ''lamp-1'' \<noteq> CHR ''-''"
proof -
  let ?td = "\<lparr> td_id = Some ''http://plugfest.example/things/--Lamp #1--'',
       td_title = ''Lamp'', td_description = None, td_properties = None,
       td_actions = None, td_events = None \<rparr>"
  note T = thing_id_sanitized [of ?td "[]" "[]" None None None None]
  have e: "extractThingId ?td = ''lamp-1''" by (rule extractThingId_example2)
  have chars: "\<forall>c \<in> set (extractThingId ?td). lowerAlnum c \<or> c = CHR ''-''"
    by (rule T [THEN conjunct2, THEN conjunct2, THEN conjunct2, THEN conjunct1])
  have "extractThingId ?td \<noteq> [] \<longrightarrow>
      hd (extractThingId ?td) \<noteq> CHR ''-'' \<and> last (extractThingId ?td) \<noteq> CHR ''-''"
    by (rule T [THEN conjunct2, THEN conjunct2, THEN conjunct2, THEN conjunct2])
  then have ends: "hd ''lamp-1'' \<noteq> CHR ''-'' \<and> last ''lamp-1'' \<noteq> CHR ''-''"
    unfolding e by simp
  have "list_all (\<lambda>c. lowerAlnum c \<or> c = CHR ''-'') (extractThingId ?td)"
    using chars by (simp only: list_all_iff)
  then have "list_all (\<lambda>c. lowerAlnum c \<or> c = CHR ''-'') ''lamp-1''"
    unfolding e .
  then show ?thesis using e ends by (intro conjI) (simp_all only: simp_thms)
qed

section \<open>Properties of the server\<close>

subsection \<open>Sequences and loops that may throw\<close>

lemma andThen_None [simp]: "andThen (None, s) f = f s"
  by (simp add: andThen_def)

lemma andThen_Some [simp]: "andThen (Some e, s) f = (Some e, s)"
  by (simp add: andThen_def)

lemma andThen_keeps:
  assumes "P (snd r)" and "\<And>s. P s \<Longrightarrow> P (snd (f s))"
  shows "P (snd (andThen r f))"
  using assms by (cases r) (auto simp: andThen_def split: option.splits)

lemma forEach_keeps:
  assumes "\<And>x s. P s \<Longrightarrow> P (snd (body x s))" and "P st"
  shows "P (snd (forEach body xs st))"
  using assms(2)
proof (induction xs arbitrary: st)
  case Nil
  then show ?case by simp
next
  case (Cons x xs)
  show ?case unfolding forEach.simps
    by (rule andThen_keeps) (use Cons assms(1) in auto)
qed


lemma andThen_unit: "andThen r (Pair None) = r"
  by (cases r) (auto simp: andThen_def split: option.splits)

lemma forEach_Cons_fun: "forEach body (x # xs) = (\<lambda>st. andThen (body x st) (forEach body xs))"
  by (simp add: fun_eq_iff)

lemma forEach_Nil_fun: "forEach body [] = Pair None"
  by (simp add: fun_eq_iff)

lemma forEach_append:
  "forEach body (xs @ ys) st = andThen (forEach body xs st) (forEach body ys)"
proof (induction xs arbitrary: st)
  case Nil
  then show ?case by simp
next
  case (Cons x xs)
  show ?case
    by (cases "body x st") (auto simp: andThen_def Cons split: option.splits)
qed

lemma forEach_concat:
  "forEach (\<lambda>x. forEach body (g x)) xs st = forEach body (concat (map g xs)) st"
proof (induction xs arbitrary: st)
  case Nil
  then show ?case by simp
next
  case (Cons x xs)
  have "forEach (\<lambda>x. forEach body (g x)) xs = forEach body (concat (map g xs))"
    using Cons by (simp add: fun_eq_iff)
  then show ?case by (simp add: forEach_append)
qed

lemma forEach_cong:
  assumes "\<And>x s. x \<in> set xs \<Longrightarrow> f x s = g x s"
  shows "forEach f xs st = forEach g xs st"
  using assms
proof (induction xs arbitrary: st)
  case Nil
  then show ?case by simp
next
  case (Cons x xs)
  have "forEach f xs = forEach g xs" using Cons by (simp add: fun_eq_iff)
  then show ?case using Cons.prems by simp
qed

lemma forEach_map: "forEach body (map g xs) st = forEach (\<lambda>x. body (g x)) xs st"
proof (induction xs arbitrary: st)
  case Nil
  then show ?case by simp
next
  case (Cons x xs)
  have "forEach body (map g xs) = forEach (\<lambda>x. body (g x)) xs" using Cons by (simp add: fun_eq_iff)
  then show ?case by simp
qed

subsection \<open>Calls on instances\<close>

lemma onServer_fields [simp]:
  "config (onServer ref f st) = config st"
  "eventBuffer (onServer ref f st) = eventBuffer st"
  "stdioServer (onServer ref f st) = stdioServer st"
  "sessions (onServer ref f st) = sessions st"
  "serverSubscriptions (onServer ref f st) = serverSubscriptions st"
  "httpServer (onServer ref f st) = httpServer st"
  "things (onServer ref f st) = things st"
  "properties (onServer ref f st) = properties st"
  "actions (onServer ref f st) = actions st"
  "events (onServer ref f st) = events st"
  "propertyReader (onServer ref f st) = propertyReader st"
  "propertyWriter (onServer ref f st) = propertyWriter st"
  "actionInvoker (onServer ref f st) = actionInvoker st"
  "nextAddress (onServer ref f st) = nextAddress st"
  "deviceLog (onServer ref f st) = deviceLog st"
  by (simp_all add: onServer_def split: option.splits)

lemma onServer_store:
  "store (onServer ref f st) = (\<lambda>r. if r = ref then map_option f (store st r) else store st r)"
  by (auto simp: onServer_def split: option.splits)

lemma onServer_eq: "onServer ref f st = st \<lparr> store := (\<lambda>r. if r = ref then map_option f (store st r) else store st r) \<rparr>"
  by (cases "store st ref") (auto simp: onServer_def fun_eq_iff intro!: McpServer.equality)

lemma strategyOf_onServer [simp]: "strategyOf (onServer ref f st) = strategyOf st"
  by (simp add: strategyOf_def)

lemma servers_onServer [simp]: "servers (onServer ref f st) = servers st"
  by (simp add: servers_def)

lemma onServer_onServer: "onServer ref g (onServer ref f st) = onServer ref (\<lambda>srv. g (f srv)) st"
  by (simp add: onServer_eq fun_eq_iff option.map_comp comp_def)

lemma onServer_id: "onServer ref (\<lambda>srv. srv) st = st"
proof -
  have "(\<lambda>r. if r = ref then map_option (\<lambda>srv. srv) (store st r) else store st r) = store st"
    by (auto simp: fun_eq_iff option.map_ident)
  then show ?thesis by (simp add: onServer_eq)
qed


text \<open>A call that may throw changes the instance it is made on and nothing else.\<close>

lemma callOnServer_Some:
  "store st ref = Some srv \<Longrightarrow>
   callOnServer ref f st = (fst (f srv), onServer ref (\<lambda>s. snd (f s)) st)"
  by (simp add: callOnServer_def onServer_def split: prod.splits)

lemma callOnServer_unstored: "unstored (snd (callOnServer ref f st)) = unstored st"
  by (simp add: callOnServer_def unstored_def split: option.splits prod.splits)


lemma unstored_eq: "unstored s = unstored st \<Longrightarrow> s = st \<lparr> store := store s \<rparr>"
proof -
  assume "unstored s = unstored st"
  then have "(unstored s) \<lparr> store := store s \<rparr> = (unstored st) \<lparr> store := store s \<rparr>" by simp
  then show ?thesis by (simp add: unstored_def)
qed

subsection \<open>Event fan-out\<close>












subsection \<open>Action inputs\<close>

lemma dataSchema_truthy: "dataSchema s \<Longrightarrow> truthy (Some s)"
  by (cases s) (auto simp: dataSchema_def)

lemma dataSchema_properties:
  "dataSchema s \<Longrightarrow> truthy (field s ''properties'') = (field s ''properties'' \<noteq> None)"
  by (cases s) (auto simp: dataSchema_def split: option.splits json.splits)

lemma build_wrapped_iff:
  "dataSchema s \<Longrightarrow> snd (buildActionInputSchema (Some s)) = (\<not> objectWithProperties s)"
  using dataSchema_properties [of s]
  by (auto simp: buildActionInputSchema_def dataSchema_truthy objectWithProperties_def Let_def)

lemma build_wrapped_schema:
  "snd (buildActionInputSchema input) \<Longrightarrow>
   input \<noteq> None \<and> fst (buildActionInputSchema input) =
     \<lparr> s_type = ''object'', s_properties = JObj [(''value'', the input)],
       s_required = Some (JArr [JStr ''value'']) \<rparr>"
  by (cases input) (auto simp: buildActionInputSchema_def Let_def split: if_splits)

lemma translateActions_wrapped:
  "map a_inputWrapped (translateActions thingId td) =
     map (\<lambda>(name, action). snd (buildActionInputSchema (field action ''input'')))
       (case td_actions td of None \<Rightarrow> [] | Some es \<Rightarrow> es)"
  by (auto simp: translateActions_def Let_def split: option.splits prod.splits)

lemma invoke_wrapped:
  "a_inputWrapped action \<Longrightarrow> actionInvoker st = Some invoker \<Longrightarrow>
   deviceLog (snd (invokeActionTool action (Some (JObj [(''value'', x)])) st)) =
     deviceLog st @ [InvokeCall (a_thingId action) (a_wotName action) (Some x)]"
  by (simp add: invokeActionTool_def logCall_def Let_def split: sum.splits)

text \<open>
  C4, as the code has it. An action that declares no input gets the schema
  \<^verbatim>\<open>{type: object, properties: {}}\<close> and \<open>inputWrapped\<close> false. For a declared input (a
  \<^verbatim>\<open>DataSchema\<close>), \<open>inputWrapped\<close> is true if and only if the input is not an object schema
  with a \<^verbatim>\<open>properties\<close> member; whenever \<open>inputWrapped\<close> is true the schema is
  \<^verbatim>\<open>{type: object, properties: {value: <input>}, required: [value]}\<close>. Every translated
  action carries the flag computed from its \<^verbatim>\<open>input\<close> member. Invoking the tool of a
  wrapped action with \<^verbatim>\<open>{value: x}\<close> calls the external invoke function with \<open>x\<close>.
\<close>

theorem action_input_wrapping:
  "buildActionInputSchema None =
     (\<lparr> s_type = ''object'', s_properties = JObj [], s_required = None \<rparr>, False)
   \<and> (dataSchema s \<longrightarrow> (snd (buildActionInputSchema (Some s)) \<longleftrightarrow> \<not> objectWithProperties s))
   \<and> (snd (buildActionInputSchema input) \<longrightarrow>
        input \<noteq> None \<and> fst (buildActionInputSchema input) =
          \<lparr> s_type = ''object'', s_properties = JObj [(''value'', the input)],
            s_required = Some (JArr [JStr ''value'']) \<rparr>)
   \<and> map a_inputWrapped (translateActions thingId td) =
        map (\<lambda>(name, action). snd (buildActionInputSchema (field action ''input'')))
          (case td_actions td of None \<Rightarrow> [] | Some es \<Rightarrow> es)
   \<and> (a_inputWrapped action \<and> actionInvoker st = Some invoker \<longrightarrow>
        deviceLog (snd (invokeActionTool action (Some (JObj [(''value'', x)])) st)) =
          deviceLog st @ [InvokeCall (a_thingId action) (a_wotName action) (Some x)])"
  using build_wrapped_iff [of s] build_wrapped_schema [of input]
    translateActions_wrapped [of thingId td] invoke_wrapped [of action st invoker x]
  by (simp add: buildActionInputSchema_def)


theorem action_input_wrapping_witness:
  "snd (buildActionInputSchema (Some (JObj [(''type'', JStr ''integer'')])))
   \<and> deviceLog (snd (invokeActionTool (t_actions (translate toggleTd) ! 1)
        (Some (JObj [(''value'', JNum 42)])) answering))
       = [InvokeCall ''lamp'' ''dim'' (Some (JNum 42))]"
proof -
  let ?s = "JObj [(''type'', JStr ''integer'')]"
  let ?act = "t_actions (translate toggleTd) ! 1"
  note T = action_input_wrapping [where s = ?s and action = ?act and st = answering
      and x = "JNum 42" and invoker = "\<lambda>t n p. Inr None" and input = None
      and thingId = "''lamp''" and td = toggleTd]
  have h1: "dataSchema ?s" by code_simp
  have h2: "\<not> objectWithProperties ?s" by code_simp
  have w: "a_inputWrapped ?act" by code_simp
  have i: "actionInvoker answering = Some (\<lambda>t n p. Inr None)"
    by (simp add: answering_def setCallbacks_def)
  have e: "a_thingId ?act = ''lamp'' \<and> a_wotName ?act = ''dim''" by code_simp
  have l: "deviceLog answering = []"
    by (simp add: answering_def setCallbacks_def newMcpServer_def)
  have a: "snd (buildActionInputSchema (Some ?s))"
    using T [THEN conjunct2, THEN conjunct1, THEN mp, OF h1] h2 by simp
  have b: "deviceLog (snd (invokeActionTool ?act (Some (JObj [(''value'', JNum 42)])) answering))
      = deviceLog answering @ [InvokeCall (a_thingId ?act) (a_wotName ?act) (Some (JNum 42))]"
    using T [THEN conjunct2, THEN conjunct2, THEN conjunct2, THEN conjunct2, THEN mp] w i
    by blast
  show ?thesis using a b e l by simp
qed

text \<open>The action \<open>toggle\<close> of the lamp declares no input: its declared input is not an
  object schema with properties, and it is not wrapped.\<close>

theorem action_without_input_counterexample:
  "\<not> (snd (buildActionInputSchema (field (JObj [(''description'', JStr ''Toggle the lamp'')]) ''input''))
        \<longleftrightarrow> \<not> isObjectWithProperties (field (JObj [(''description'', JStr ''Toggle the lamp'')]) ''input''))"
  by (simp add: buildActionInputSchema_def isObjectWithProperties_def)

subsection \<open>Registration of tools and resources\<close>

lemma registerPropertyGetter_unstored:
  "unstored (snd (registerPropertyGetterToolOnServer ref p st)) = unstored st"
  by (simp add: registerPropertyGetterToolOnServer_def callOnServer_unstored)

lemma registerPropertySetter_unstored:
  "unstored (snd (registerPropertySetterToolOnServer ref p st)) = unstored st"
  by (simp add: registerPropertySetterToolOnServer_def callOnServer_unstored split: sum.splits)

lemma registerAction_unstored:
  "unstored (snd (registerActionToolOnServer ref a st)) = unstored st"
  by (simp add: registerActionToolOnServer_def callOnServer_unstored split: sum.splits)

lemma registerEvent_unstored:
  "unstored (snd (registerEventResourceOnServer ref e st)) = unstored st"
  by (simp add: registerEventResourceOnServer_def callOnServer_unstored)

lemma registerProperty_unstored:
  "unstored (snd (registerProperty ref p st)) = unstored st"
  unfolding registerProperty_def
  by (rule andThen_keeps [where P = "\<lambda>s. unstored s = unstored st"])
    (simp_all add: registerPropertyGetter_unstored registerPropertySetter_unstored)

lemma registerGenericTools_unstored:
  "unstored (snd (registerGenericTools ref st)) = unstored st"
  unfolding registerGenericTools_def
  by (rule andThen_keeps [where P = "\<lambda>s. unstored s = unstored st"],
      rule andThen_keeps [where P = "\<lambda>s. unstored s = unstored st"],
      rule andThen_keeps [where P = "\<lambda>s. unstored s = unstored st"])
    (simp_all add: callOnServer_unstored)

lemma registerProperties_unstored:
  "unstored (snd (forEach (registerProperty ref) ps st)) = unstored st"
  by (rule forEach_keeps [where P = "\<lambda>s. unstored s = unstored st"])
    (simp_all add: registerProperty_unstored)

lemma registerActions_unstored:
  "unstored (snd (forEach (registerActionToolOnServer ref) as st)) = unstored st"
  by (rule forEach_keeps [where P = "\<lambda>s. unstored s = unstored st"])
    (simp_all add: registerAction_unstored)

lemma registerEvents_unstored:
  "unstored (snd (forEach (registerEventResourceOnServer ref) es st)) = unstored st"
  by (rule forEach_keeps [where P = "\<lambda>s. unstored s = unstored st"])
    (simp_all add: registerEvent_unstored)

lemma registerExplicit_unstored:
  "unstored (snd (andThen (forEach (registerProperty ref) ps st)
      (forEach (registerActionToolOnServer ref) as))) = unstored st"
  by (rule andThen_keeps [where P = "\<lambda>s. unstored s = unstored st"])
    (simp_all add: registerProperties_unstored registerActions_unstored)



text \<open>What the registrations of \<^verbatim>\<open>initializeServer\<close> leave apart from the instances.\<close>

lemma initializeServer_unstored:
  "unstored (snd (initializeServer ref st)) =
     (if fst (initializeServer ref st) = None then setupSubscriptionHandlers ref (unstored st)
      else unstored st)"
proof -
  let ?r = "andThen
       (if strategyOf st = Explicit
        then andThen (forEach (registerProperty ref) (map snd (properties st)) st)
               (forEach (registerActionToolOnServer ref) (map snd (actions st)))
        else registerGenericTools ref st)
       (forEach (registerEventResourceOnServer ref) (map snd (events st)))"
  have u: "unstored (snd ?r) = unstored st"
    by (rule andThen_keeps [where P = "\<lambda>s. unstored s = unstored st"])
      (simp_all add: registerExplicit_unstored registerEvents_unstored
        registerGenericTools_unstored)
  have i: "initializeServer ref st = andThen ?r (\<lambda>st2. (None, setupSubscriptionHandlers ref st2))"
    by (simp add: initializeServer_def)
  have s: "unstored (setupSubscriptionHandlers ref s) = setupSubscriptionHandlers ref (unstored s)" for s
    by (simp add: setupSubscriptionHandlers_def unstored_def)
  show ?thesis unfolding i using u
    by (cases ?r) (auto simp: andThen_def s split: option.splits)
qed

text \<open>An instance that accepts a list of tools registers them all, in order.\<close>

lemma addTools_Cons: "addTools ts (addTools [t] srv) = addTools (t # ts) srv"
  by (simp add: addTools_def)

lemma addResources_Cons: "addResources rs (addResources [r] srv) = addResources (r # rs) srv"
  by (simp add: addResources_def)

lemma registerTool_accepted:
  "acceptsTools ((n, h) # ts) srv \<Longrightarrow>
   registerTool n h srv = (None, addTools [(n, h)] srv) \<and> acceptsTools ts (addTools [(n, h)] srv)"
  by (auto simp: acceptsTools_def registerTool_def addTools_def)

lemma registerResource_accepted:
  "acceptsResources ((n, u, e) # rs) srv \<Longrightarrow>
   registerResource n u e srv = (None, addResources [(n, u, e)] srv)
   \<and> acceptsResources rs (addResources [(n, u, e)] srv)"
  by (auto simp: acceptsResources_def registerResource_def addResources_def)

lemma registerTools_accepted:
  "store st ref = Some srv \<Longrightarrow> acceptsTools ts srv \<Longrightarrow>
   forEach (\<lambda>t. callOnServer ref (registerTool (fst t) (snd t))) ts st
     = (None, onServer ref (addTools ts) st)"
proof (induction ts arbitrary: st srv)
  case Nil
  have "addTools [] = (\<lambda>srv. srv)" by (simp add: fun_eq_iff addTools_def)
  then show ?case by (simp add: onServer_id)
next
  case (Cons t ts)
  obtain n h where t: "t = (n, h)" by (cases t)
  from registerTool_accepted [of n h ts srv] Cons.prems t
  have r: "registerTool n h srv = (None, addTools [(n, h)] srv)"
    and a: "acceptsTools ts (addTools [(n, h)] srv)" by simp_all
  let ?st1 = "onServer ref (addTools [(n, h)]) st"
  have c: "callOnServer ref (registerTool n h) st = (None, ?st1)"
    using Cons.prems(1) r by (simp add: callOnServer_def onServer_def)
  have s1: "store ?st1 ref = Some (addTools [(n, h)] srv)"
    using Cons.prems(1) by (simp add: onServer_store)
  have "forEach (\<lambda>t. callOnServer ref (registerTool (fst t) (snd t))) ts ?st1
      = (None, onServer ref (addTools ts) ?st1)"
    using s1 a by (rule Cons.IH)
  then show ?case
    by (simp add: t c onServer_onServer addTools_Cons)
qed

lemma registerResources_accepted:
  "store st ref = Some srv \<Longrightarrow> acceptsResources rs srv \<Longrightarrow>
   forEach (\<lambda>r. callOnServer ref (registerResource (fst r) (fst (snd r)) (snd (snd r)))) rs st
     = (None, onServer ref (addResources rs) st)"
proof (induction rs arbitrary: st srv)
  case Nil
  have "addResources [] = (\<lambda>srv. srv)" by (simp add: fun_eq_iff addResources_def)
  then show ?case by (simp add: onServer_id)
next
  case (Cons r rs)
  obtain n u e where t: "r = (n, u, e)" by (cases r)
  from registerResource_accepted [of n u e rs srv] Cons.prems t
  have r: "registerResource n u e srv = (None, addResources [(n, u, e)] srv)"
    and a: "acceptsResources rs (addResources [(n, u, e)] srv)" by simp_all
  let ?st1 = "onServer ref (addResources [(n, u, e)]) st"
  have c: "callOnServer ref (registerResource n u e) st = (None, ?st1)"
    using Cons.prems(1) r by (simp add: callOnServer_def onServer_def)
  have s1: "store ?st1 ref = Some (addResources [(n, u, e)] srv)"
    using Cons.prems(1) by (simp add: onServer_store)
  have "forEach (\<lambda>r. callOnServer ref (registerResource (fst r) (fst (snd r)) (snd (snd r)))) rs ?st1
      = (None, onServer ref (addResources rs) ?st1)"
    using s1 a by (rule Cons.IH)
  then show ?case
    by (simp add: t c onServer_onServer addResources_Cons)
qed

text \<open>The loops of the explicit strategy, when the schemas convert, are one loop over the
  tools.\<close>

lemma registerProperty_converts:
  assumes "\<not> (p_writable p \<and> isl (jsonSchemaToZod (if truthy (p_schema p) then the (p_schema p)
                                               else JObj [(''type'', JStr ''string'')])))"
  shows "registerProperty ref p st =
     forEach (\<lambda>t. callOnServer ref (registerTool (fst t) (snd t))) (propertyTools p) st"
proof (cases "p_writable p")
  case False
  have "(\<lambda>st1. (None :: error option, st1 :: McpServer)) = Pair None" by (simp add: fun_eq_iff)
  then show ?thesis using False
    by (simp add: registerProperty_def registerPropertyGetterToolOnServer_def propertyTools_def
        forEach_Nil_fun andThen_unit)
next
  case True
  let ?z = "jsonSchemaToZod (if truthy (p_schema p) then the (p_schema p)
                             else JObj [(''type'', JStr ''string'')])"
  from True assms obtain v where v: "?z = Inr v" by (cases ?z) auto
  have s: "registerPropertySetterToolOnServer ref p s =
      callOnServer ref (registerTool (propertyToolName ''set'' p) (SetterTool p)) s" for s
    unfolding registerPropertySetterToolOnServer_def v by simp
  show ?thesis using True
    by (simp add: registerProperty_def registerPropertyGetterToolOnServer_def propertyTools_def
        forEach_Cons_fun forEach_Nil_fun andThen_unit s)
qed

lemma registerAction_converts:
  "\<not> isl (jsonSchemaToZodObject (a_inputSchema a)) \<Longrightarrow>
   registerActionToolOnServer ref a st =
     callOnServer ref (registerTool (actionToolName a) (ActionTool a)) st"
  by (auto simp: registerActionToolOnServer_def isl_def split: sum.splits)

lemma register_explicit:
  assumes "converts props acts"
  shows "andThen (forEach (registerProperty ref) props st)
           (forEach (registerActionToolOnServer ref) acts)
     = forEach (\<lambda>t. callOnServer ref (registerTool (fst t) (snd t))) (explicitTools props acts) st"
proof -
  let ?reg = "\<lambda>t. callOnServer ref (registerTool (fst t) (snd t))"
  have p: "forEach (registerProperty ref) props s = forEach ?reg (concat (map propertyTools props)) s" for s
  proof -
    have "forEach (registerProperty ref) props s = forEach (\<lambda>p. forEach ?reg (propertyTools p)) props s"
      using assms by (intro forEach_cong registerProperty_converts) (auto simp: converts_def list_all_iff)
    then show ?thesis by (simp add: forEach_concat)
  qed
  have a: "forEach (registerActionToolOnServer ref) acts s
      = forEach ?reg (map (\<lambda>a. (actionToolName a, ActionTool a)) acts) s" for s
  proof -
    have "forEach (registerActionToolOnServer ref) acts s
        = forEach (\<lambda>a. ?reg (actionToolName a, ActionTool a)) acts s"
      using assms by (intro forEach_cong) (auto simp: converts_def list_all_iff registerAction_converts)
    then show ?thesis by (simp add: forEach_map)
  qed
  show ?thesis by (simp add: p a [abs_def] explicitTools_def forEach_append)
qed

lemma register_events:
  "forEach (registerEventResourceOnServer ref) evs st =
     forEach (\<lambda>r. callOnServer ref (registerResource (fst r) (fst (snd r)) (snd (snd r))))
       (eventResources evs) st"
  by (simp add: eventResources_def forEach_map registerEventResourceOnServer_def [abs_def])


subsection \<open>Registrations that succeed\<close>

lemma acceptsResources_addTools: "acceptsResources rs (addTools ts srv) = acceptsResources rs srv"
  by (simp add: acceptsResources_def addTools_def)

lemma applyThingToServer_accepted:
  assumes s: "store st ref = Some srv"
    and c: "strategyOf st = Explicit \<longrightarrow> converts (t_properties thing) (t_actions thing)"
    and t: "acceptsTools (thingTools st thing) srv"
    and r: "acceptsResources (eventResources (t_events thing)) srv"
  shows "applyThingToServer thing ref st =
     (None, onServer ref (provisioned (thingTools st thing) (eventResources (t_events thing))) st)"
proof -
  let ?ts = "thingTools st thing" and ?rs = "eventResources (t_events thing)"
  let ?st1 = "onServer ref (addTools ?ts) st"
  have first: "(if strategyOf st = Explicit
        then andThen (forEach (registerProperty ref) (t_properties thing) st)
               (forEach (registerActionToolOnServer ref) (t_actions thing))
        else (None, st)) = (None, ?st1)"
  proof (cases "strategyOf st = Explicit")
    case True
    then show ?thesis
      using c registerTools_accepted [OF s t]
      by (simp add: register_explicit thingTools_def)
  next
    case False
    have "addTools [] = (\<lambda>srv. srv)" by (simp add: fun_eq_iff addTools_def)
    then show ?thesis using False by (simp add: thingTools_def onServer_id)
  qed
  have s1: "store ?st1 ref = Some (addTools ?ts srv)" using s by (simp add: onServer_store)
  have "forEach (registerEventResourceOnServer ref) (t_events thing) ?st1
      = (None, onServer ref (addResources ?rs) ?st1)"
    unfolding register_events
    by (rule registerResources_accepted [OF s1]) (simp add: acceptsResources_addTools r)
  then show ?thesis
    unfolding applyThingToServer_def first
    by (simp add: onServer_onServer provisioned_def [abs_def])
qed

lemma applyThingTo_refs:
  assumes "distinct refs"
    and "strategyOf st = Explicit \<longrightarrow> converts (t_properties thing) (t_actions thing)"
    and "\<forall>ref \<in> set refs. \<exists>srv. store st ref = Some srv \<and> acceptsTools (thingTools st thing) srv
          \<and> acceptsResources (eventResources (t_events thing)) srv"
  shows "forEach (applyThingToServer thing) refs st =
     (None, st \<lparr> store := (\<lambda>r. if r \<in> set refs
                               then map_option (provisioned (thingTools st thing)
                                      (eventResources (t_events thing))) (store st r)
                               else store st r) \<rparr>)"
  using assms
proof (induction refs arbitrary: st)
  case Nil
  then show ?case by simp
next
  case (Cons a refs)
  let ?F = "provisioned (thingTools st thing) (eventResources (t_events thing))"
  let ?st1 = "onServer a ?F st"
  from Cons.prems(3) obtain srv where srv: "store st a = Some srv"
    "acceptsTools (thingTools st thing) srv"
    "acceptsResources (eventResources (t_events thing)) srv" by auto
  have a: "applyThingToServer thing a st = (None, ?st1)"
    using srv Cons.prems(2) by (intro applyThingToServer_accepted)
  have tt: "thingTools ?st1 thing = thingTools st thing" by (simp add: thingTools_def)
  have "forEach (applyThingToServer thing) refs ?st1 =
     (None, ?st1 \<lparr> store := (\<lambda>r. if r \<in> set refs
                               then map_option (provisioned (thingTools ?st1 thing)
                                      (eventResources (t_events thing))) (store ?st1 r)
                               else store ?st1 r) \<rparr>)"
  proof (rule Cons.IH)
    show "distinct refs" using Cons.prems(1) by simp
    show "strategyOf ?st1 = Explicit \<longrightarrow> converts (t_properties thing) (t_actions thing)"
      using Cons.prems(2) by simp
    show "\<forall>ref \<in> set refs. \<exists>srv. store ?st1 ref = Some srv
          \<and> acceptsTools (thingTools ?st1 thing) srv
          \<and> acceptsResources (eventResources (t_events thing)) srv"
      using Cons.prems(1,3) unfolding tt by (auto simp: onServer_store)
  qed
  also have "?st1 \<lparr> store := (\<lambda>r. if r \<in> set refs
                               then map_option (provisioned (thingTools ?st1 thing)
                                      (eventResources (t_events thing))) (store ?st1 r)
                               else store ?st1 r) \<rparr>
      = st \<lparr> store := (\<lambda>r. if r \<in> set (a # refs) then map_option ?F (store st r)
                             else store st r) \<rparr>"
    using Cons.prems(1) unfolding tt by (auto simp: onServer_eq fun_eq_iff)
  finally show ?case by (simp add: a)
qed

lemma applyThingToAllServers_accepted:
  assumes "distinct (servers st)" and "applicable thing st"
  shows "applyThingToAllServers thing st =
     (None, st \<lparr> store := (\<lambda>r. if r \<in> set (servers st)
                               then map_option (provisioned (thingTools st thing)
                                      (eventResources (t_events thing))) (store st r)
                               else store st r) \<rparr>)"
  unfolding applyThingToAllServers_def
  using assms
  by (intro applyThingTo_refs) (auto simp: applicable_def list_all_iff split: option.splits)





subsection \<open>The registry\<close>


lemma map_of_mapSet: "map_of (mapSet k v m) k' = (if k' = k then Some v else map_of m k')"
  by (induction m) auto

lemma keys_mapSet: "fst ` set (mapSet k v m) = insert k (fst ` set m)"
proof -
  have "dom (map_of (mapSet k v m)) = insert k (dom (map_of m))"
    by (auto simp: map_of_mapSet dom_def)
  then show ?thesis by (simp add: dom_map_of_conv_image_fst)
qed




lemma fold_field_properties:
  "fold (\<lambda>p s. s \<lparr> properties := mapSet (p_uri p) p (properties s) \<rparr>) ps st =
     st \<lparr> properties := fold (\<lambda>p. mapSet (p_uri p) p) ps (properties st) \<rparr>"
  by (induction ps arbitrary: st) simp_all

lemma fold_field_actions:
  "fold (\<lambda>a s. s \<lparr> actions := mapSet (a_name a) a (actions s) \<rparr>) as st =
     st \<lparr> actions := fold (\<lambda>a. mapSet (a_name a) a) as (actions st) \<rparr>"
  by (induction as arbitrary: st) simp_all

lemma fold_field_events:
  "fold (\<lambda>e s. s \<lparr> events := mapSet (e_uri e) e (events s),
                   eventBuffer := initialize (e_uri e) (eventBuffer s) \<rparr>) es st =
     st \<lparr> events := fold (\<lambda>e. mapSet (e_uri e) e) es (events st),
          eventBuffer := fold (\<lambda>e. initialize (e_uri e)) es (eventBuffer st) \<rparr>"
  by (induction es arbitrary: st) simp_all

lemma registerThing_eq: "registerThing thing st = applyThingToAllServers thing (registered thing st)"
  by (simp add: registerThing_def Let_def fold_field_properties fold_field_actions
      fold_field_events registered_def)


lemma registered_fields:
  "servers (registered thing st) = servers st"
  "store (registered thing st) = store st"
  "strategyOf (registered thing st) = strategyOf st"
  "sessions (registered thing st) = sessions st"
  "stdioServer (registered thing st) = stdioServer st"
  "serverSubscriptions (registered thing st) = serverSubscriptions st"
  "nextAddress (registered thing st) = nextAddress st"
  "config (registered thing st) = config st"
  "deviceLog (registered thing st) = deviceLog st"
  "thingTools (registered thing st) x = thingTools st x"
  by (simp_all add: registered_def servers_def strategyOf_def thingTools_def)


lemma applicable_registered: "applicable thing (registered thing st) = applicable thing st"
  by (simp add: applicable_def registered_fields cong: option.case_cong)

text \<open>When every instance accepts the thing, \<^verbatim>\<open>registerThing\<close> does not throw and every
  instance visited has the tools and the resources of the thing added.\<close>

lemma registerThing_accepted:
  assumes "distinct (servers st)" and "applicable thing st"
  shows "registerThing thing st =
     (None, (registered thing st) \<lparr> store := (\<lambda>r. if r \<in> set (servers st)
                               then map_option (provisioned (thingTools st thing)
                                      (eventResources (t_events thing))) (store st r)
                               else store st r) \<rparr>)"
proof -
  have "distinct (servers (registered thing st))" using assms(1) by (simp add: registered_fields)
  moreover have "applicable thing (registered thing st)"
    using assms(2) by (simp add: applicable_registered)
  ultimately show ?thesis
    unfolding registerThing_eq
    by (simp add: applyThingToAllServers_accepted registered_fields cong: if_cong)
qed

subsection \<open>The tools of the explicit strategy\<close>



lemma translated_keys:
  "map p_uri (translateProperties thingId td) =
     map (\<lambda>n. ''wot://'' @ thingId @ ''/properties/'' @ n)
       (map fst (case td_properties td of None \<Rightarrow> [] | Some es \<Rightarrow> es))"
  "map a_name (translateActions thingId td) =
     map (\<lambda>n. thingId @ ''_'' @ n)
       (map fst (case td_actions td of None \<Rightarrow> [] | Some es \<Rightarrow> es))"
  "map e_uri (translateEvents thingId td) =
     map (\<lambda>n. ''wot://'' @ thingId @ ''/events/'' @ n)
       (map fst (case td_events td of None \<Rightarrow> [] | Some es \<Rightarrow> es))"
  by (simp_all add: translateProperties_def translateActions_def translateEvents_def Let_def
      comp_def case_prod_unfold split: option.splits)

lemma translate_fields:
  "t_properties (translate td) = translateProperties (extractThingId td) td"
  "t_actions (translate td) = translateActions (extractThingId td) td"
  "t_events (translate td) = translateEvents (extractThingId td) td"
  by (simp_all add: translate_def Let_def)

lemma translate_keys_distinct:
  "distinct (map fst (case td_properties td of None \<Rightarrow> [] | Some es \<Rightarrow> es)) \<Longrightarrow>
     distinct (map p_uri (t_properties (translate td)))"
  "distinct (map fst (case td_actions td of None \<Rightarrow> [] | Some es \<Rightarrow> es)) \<Longrightarrow>
     distinct (map a_name (t_actions (translate td)))"
  "distinct (map fst (case td_events td of None \<Rightarrow> [] | Some es \<Rightarrow> es)) \<Longrightarrow>
     distinct (map e_uri (t_events (translate td)))"
  unfolding translate_fields translated_keys
  by (simp_all add: distinct_map inj_on_def del: map_map)








subsection \<open>Registering a thing\<close>















subsection \<open>Adding a thing through the bridge\<close>













end
